theory Spec2Isabelle
  imports Main "HOL-Library.Word"
begin

unbundle bit_operations_syntax

section \<open>Configuration (config.go)\<close>

text \<open>
  Go's \<open>uint64\<close> and \<open>uint32\<close> are words. \<open>time.Duration\<close> is an \<open>int64\<close> count of
  nanoseconds: a 64-bit word read with \<open>sint\<close> and compared with the signed orders
  \<open>word_sless\<close> and \<open>word_sle\<close>. The \<open>int\<close> fields are only compared and counted, never
  overflowed, and are integers.
\<close>

type_synonym byte = "8 word"
type_synonym uint64 = "64 word"
type_synonym uint32 = "32 word"
type_synonym Duration = "64 word"

record Config =
  MaxBytesPerKey :: uint64
  MaxInitRetries :: int
  MaxRekeyAttempts :: int
  MaxRekeyBackoff :: Duration
  RekeyBackoff :: Duration
  EnableKeyRotation :: bool
  UseZeroBuffer :: bool
  DefaultBufferSize :: int
  Shards :: int

definition Millisecond :: Duration where
  "Millisecond = 1000000"

definition Second :: Duration where
  "Second = 1000000000"

definition maxRekeyAttempts :: int where
  "maxRekeyAttempts = 5"

definition rekeyBackoff :: Duration where
  "rekeyBackoff = 100 * Millisecond"

definition maxRekeyBackoff :: Duration where
  "maxRekeyBackoff = 2 * Second"

definition maxBytesPerKey :: uint64 where
  "maxBytesPerKey = push_bit 30 1"

definition defaultBufferSize :: int where
  "defaultBufferSize = 64"

text \<open>\<open>DefaultConfig\<close>; its argument is the value of \<open>runtime.GOMAXPROCS(0)\<close>.\<close>

definition DefaultConfig :: "int \<Rightarrow> Config" where
  "DefaultConfig procs =
     \<lparr> MaxBytesPerKey = maxBytesPerKey,
       MaxInitRetries = 3,
       MaxRekeyAttempts = maxRekeyAttempts,
       MaxRekeyBackoff = maxRekeyBackoff,
       RekeyBackoff = rekeyBackoff,
       EnableKeyRotation = False,
       UseZeroBuffer = False,
       DefaultBufferSize = defaultBufferSize,
       Shards = procs \<rparr>"

text \<open>
  An \<open>Option\<close> is a \<open>func(*Config)\<close>; the nine constructors of config.go are the
  recognized options, and \<open>apply_Option\<close> is the call \<open>opt(&cfg)\<close>.
\<close>

datatype Option =
    WithMaxBytesPerKey uint64
  | WithMaxInitRetries int
  | WithMaxRekeyAttempts int
  | WithMaxRekeyBackoff Duration
  | WithRekeyBackoff Duration
  | WithEnableKeyRotation bool
  | WithZeroBuffer bool
  | WithDefaultBufferSize int
  | WithShards int

fun apply_Option :: "Option \<Rightarrow> Config \<Rightarrow> Config" where
  "apply_Option (WithMaxBytesPerKey n) cfg = cfg\<lparr>MaxBytesPerKey := n\<rparr>"
| "apply_Option (WithMaxInitRetries r) cfg = cfg\<lparr>MaxInitRetries := r\<rparr>"
| "apply_Option (WithMaxRekeyAttempts r) cfg = cfg\<lparr>MaxRekeyAttempts := r\<rparr>"
| "apply_Option (WithMaxRekeyBackoff d) cfg = cfg\<lparr>MaxRekeyBackoff := d\<rparr>"
| "apply_Option (WithRekeyBackoff d) cfg = cfg\<lparr>RekeyBackoff := d\<rparr>"
| "apply_Option (WithEnableKeyRotation enable) cfg = cfg\<lparr>EnableKeyRotation := enable\<rparr>"
| "apply_Option (WithZeroBuffer enable) cfg = cfg\<lparr>UseZeroBuffer := enable\<rparr>"
| "apply_Option (WithDefaultBufferSize n) cfg = cfg\<lparr>DefaultBufferSize := n\<rparr>"
| "apply_Option (WithShards n) cfg = cfg\<lparr>Shards := n\<rparr>"

text \<open>The loop \<open>for _, opt := range opts { opt(&cfg) }\<close> of \<open>NewReader\<close>.\<close>

fun apply_Options :: "Option list \<Rightarrow> Config \<Rightarrow> Config" where
  "apply_Options [] cfg = cfg"
| "apply_Options (opt # opts) cfg = apply_Options opts (apply_Option opt cfg)"

text \<open>Step 1 of \<open>NewReader\<close>: defaults, options in order, then the shard fallback.\<close>

definition compose_Config :: "int \<Rightarrow> Option list \<Rightarrow> Config" where
  "compose_Config procs opts =
     (let cfg = apply_Options opts (DefaultConfig procs)
      in if Shards cfg \<le> 0 then cfg\<lparr>Shards := procs\<rparr> else cfg)"

section \<open>External collaborators\<close>

text \<open>
  The system entropy source, the ChaCha20 primitive, the non-cryptographic generator behind
  \<open>math/rand/v2\<close> and the processor count are not part of the repository: they are
  parameters. \<open>entropy k n\<close> is the answer of the \<open>k\<close>-th read of \<open>crypto/rand.Reader\<close>
  when \<open>n\<close> bytes are asked for (\<open>None\<close> is an error), \<open>keystream key nonce i\<close> is byte \<open>i\<close>
  of the ChaCha20 keystream, \<open>intn k n\<close> is the \<open>k\<close>-th draw of \<open>mrand.IntN(n)\<close>.
\<close>

record env =
  entropy :: "nat \<Rightarrow> nat \<Rightarrow> byte list option"
  keystream :: "byte list \<Rightarrow> byte list \<Rightarrow> nat \<Rightarrow> byte"
  intn :: "nat \<Rightarrow> nat \<Rightarrow> nat"
  gomaxprocs :: int

datatype error = KeyReadFailed | NonceReadFailed | CipherInitFailed | PoolInitFailed int

datatype panic =
    NilInterface
  | NilDereference
  | IndexOutOfRange
  | DivideByZero
  | InvalidArgument
  | NegativeLen
  | PoolInitPanic int
  | CounterOverflow

text \<open>
  A \<open>*chacha20.Cipher\<close> is an address into a store of cipher objects, so that the
  worker's \<open>*old = chacha20.Cipher{}\<close> and the cipher it has just published are
  different objects.
\<close>

record Cipher =
  ckey :: "byte list"
  cnonce :: "byte list"
  cpos :: nat

type_synonym ref = nat

datatype event =
    CipherFactoryCalled
  | CipherStored ref
  | UsageStored uint64
  | CipherWiped ref
  | RekeyingStored uint32
  | Slept Duration
  | WorkerSpawned

text \<open>
  What the code acts on besides its receiver: the cipher objects, the number of reads made
  of the entropy source and of draws from \<open>math/rand/v2\<close>, and a log, in order, of the
  cipher factory's calls, of the worker's stores and sleeps, and of the goroutines started.
\<close>

record world =
  heap :: "ref \<Rightarrow> Cipher option"
  next_ref :: ref
  rand_calls :: nat
  mrand_calls :: nat
  trace :: "event list"

definition log_event :: "event \<Rightarrow> world \<Rightarrow> world" where
  "log_event ev w = w\<lparr>trace := trace w @ [ev]\<rparr>"

definition KeySize :: nat where
  "KeySize = 32"

definition NonceSize :: nat where
  "NonceSize = 12"

definition NonceSizeX :: nat where
  "NonceSizeX = 24"

text \<open>\<open>io.ReadFull(rand.Reader, buf)\<close> and \<open>rand.Read(buf)\<close>: a short read is an error.\<close>

definition ReadFull :: "env \<Rightarrow> nat \<Rightarrow> world \<Rightarrow> byte list option \<times> world" where
  "ReadFull e n w =
     ((case entropy e (rand_calls w) n of
         None \<Rightarrow> None
       | Some bs \<Rightarrow> if length bs = n then Some bs else None),
      w\<lparr>rand_calls := Suc (rand_calls w)\<rparr>)"

text \<open>
  Modelled from the spec: the ChaCha20 primitive is a library (golang.org/x/crypto/chacha20),
  "available with the standard 32-byte key / 24-byte extended nonce construction, producing
  keystream by XOR"; a new cipher's keystream position is zero.
\<close>

definition NewUnauthenticatedCipher :: "byte list \<Rightarrow> byte list \<Rightarrow> Cipher option" where
  "NewUnauthenticatedCipher k n =
     (if length k = KeySize \<and> (length n = NonceSizeX \<or> length n = NonceSize)
      then Some \<lparr>ckey = k, cnonce = n, cpos = 0\<rparr> else None)"

text \<open>
  A key gives \<open>2^32\<close> blocks of 64 bytes: the library's \<open>XORKeyStream\<close> panics
  (\<open>chacha20: counter overflow\<close>) on a call that asks for keystream beyond them.
\<close>

definition keystream_limit :: nat where
  "keystream_limit = 2 ^ 38"

text \<open>
  \<open>stream.XORKeyStream(dst, src)\<close> with \<open>len(dst) = len(src)\<close>, as at both call sites:
  the new contents of \<open>dst\<close> and the advanced cipher, or the panic. \<open>src\<close> is only read.
\<close>

definition XORKeyStream :: "env \<Rightarrow> Cipher \<Rightarrow> byte list \<Rightarrow> panic + (byte list \<times> Cipher)" where
  "XORKeyStream e c src =
     (if src \<noteq> [] \<and> keystream_limit < cpos c + length src then Inl CounterOverflow
      else Inr (map (\<lambda>i. (src ! i) XOR keystream e (ckey c) (cnonce c) (cpos c + i))
                  [0..<length src],
                c\<lparr>cpos := cpos c + length src\<rparr>))"

text \<open>The zero value \<open>chacha20.Cipher{}\<close>.\<close>

definition zero_Cipher :: Cipher where
  "zero_Cipher = \<lparr>ckey = replicate KeySize 0, cnonce = replicate NonceSizeX 0, cpos = 0\<rparr>"

text \<open>\<open>binary.BigEndian.Uint64\<close>.\<close>

definition BigEndian_Uint64 :: "byte list \<Rightarrow> uint64" where
  "BigEndian_Uint64 b = foldl (\<lambda>acc x. push_bit 8 acc OR ucast x) 0 (take 8 b)"

section \<open>Cipher factory and generator instance\<close>

text \<open>
  A byte slice is its backing array and its length; the capacity is the length of the
  array. \<open>make([]byte, n)\<close> is zero-filled; \<open>s[:n]\<close> keeps the array.
\<close>

record bytes =
  arr :: "byte list"
  len :: nat

definition make_bytes :: "nat \<Rightarrow> bytes" where
  "make_bytes n = \<lparr>arr = replicate n 0, len = n\<rparr>"

definition cap :: "bytes \<Rightarrow> nat" where
  "cap s = length (arr s)"

definition reslice :: "bytes \<Rightarrow> nat \<Rightarrow> bytes" where
  "reslice s n = s\<lparr>len := n\<rparr>"

definition contents :: "bytes \<Rightarrow> byte list" where
  "contents s = take (len s) (arr s)"

record prng =
  config :: Config
  cipher :: "ref option"
  zero :: bytes
  usage :: uint64
  rekeying :: uint32

text \<open>
  \<open>newCipher\<close>. The key and nonce buffers are locals, zeroed before the return; the
  cipher is a fresh object.
\<close>

definition newCipher :: "env \<Rightarrow> world \<Rightarrow> (error + ref) \<times> world" where
  "newCipher e w0 =
     (let w = log_event CipherFactoryCalled w0;
          (k, w1) = ReadFull e KeySize w
      in case k of
           None \<Rightarrow> (Inl KeyReadFailed, w1)
         | Some key \<Rightarrow>
             (let (n, w2) = ReadFull e NonceSizeX w1
              in case n of
                   None \<Rightarrow> (Inl NonceReadFailed, w2)
                 | Some nonce \<Rightarrow>
                     (case NewUnauthenticatedCipher key nonce of
                        None \<Rightarrow> (Inl CipherInitFailed, w2)
                      | Some c \<Rightarrow>
                          (Inr (next_ref w2),
                           w2\<lparr>heap := (heap w2)(next_ref w2 \<mapsto> c),
                              next_ref := Suc (next_ref w2)\<rparr>))))"

definition newPRNG :: "env \<Rightarrow> Config \<Rightarrow> world \<Rightarrow> (error + prng) \<times> world" where
  "newPRNG e cfg w =
     (case newCipher e w of
        (Inl err, w1) \<Rightarrow> (Inl err, w1)
      | (Inr stream, w1) \<Rightarrow>
          (Inr \<lparr>config = cfg,
                cipher = Some stream,
                zero = (if UseZeroBuffer cfg \<and> DefaultBufferSize cfg > 0
                        then make_bytes (nat (DefaultBufferSize cfg)) else make_bytes 0),
                usage = 0,
                rekeying = 0\<rparr>, w1))"

text \<open>
  Step 2 of \<open>prng.Read\<close>: the output bytes, the instance and the advanced cipher, or the
  panic of \<open>XORKeyStream\<close>.
\<close>

definition generate ::
  "env \<Rightarrow> prng \<Rightarrow> Cipher \<Rightarrow> byte list \<Rightarrow> panic + (byte list \<times> prng \<times> Cipher)" where
  "generate e p stream b =
     (let n = length b
      in if UseZeroBuffer (config p)
         then (let z = (if cap (zero p) < n then make_bytes n else reslice (zero p) n)
               in case XORKeyStream e stream (contents z) of
                    Inl pn \<Rightarrow> Inl pn
                  | Inr (out, stream') \<Rightarrow> Inr (out, p\<lparr>zero := z\<rparr>, stream'))
         else (case XORKeyStream e stream b of
                 Inl pn \<Rightarrow> Inl pn
               | Inr (out, stream') \<Rightarrow> Inr (out, p, stream')))"

text \<open>
  Step 3 of \<open>prng.Read\<close>: the atomic add, the load and comparison, the compare-and-swap
  and the \<open>go p.asyncRekey()\<close>.
\<close>

definition track_usage :: "prng \<Rightarrow> nat \<Rightarrow> world \<Rightarrow> prng \<times> world" where
  "track_usage p n w =
     (if EnableKeyRotation (config p)
      then (let p1 = p\<lparr>usage := usage p + of_nat n\<rparr>
            in if usage p1 > MaxBytesPerKey (config p1)
               then (if rekeying p1 = 0
                     then (p1\<lparr>rekeying := 1\<rparr>, log_event WorkerSpawned w)
                     else (p1, w))
               else (p1, w))
      else (p, w))"

text \<open>
  \<open>prng.Read\<close>: the returned \<open>(n, err)\<close>, the buffer after the call, the instance and
  the world, or the panic: of the type assertion on an empty \<open>atomic.Value\<close>, or of
  \<open>XORKeyStream\<close>.
\<close>

definition prng_Read ::
  "env \<Rightarrow> prng \<Rightarrow> byte list \<Rightarrow> world \<Rightarrow>
   panic + ((nat \<times> error option) \<times> byte list \<times> prng \<times> world)" where
  "prng_Read e p b w =
     (let n = length b
      in if n = 0 then Inr ((0, None), b, p, w)
         else (case cipher p of
                 None \<Rightarrow> Inl NilInterface
               | Some r \<Rightarrow>
                   (case heap w r of
                      None \<Rightarrow> Inl NilDereference
                    | Some stream \<Rightarrow>
                        (case generate e p stream b of
                           Inl pn \<Rightarrow> Inl pn
                         | Inr (out, p1, stream') \<Rightarrow>
                             (let w1 = w\<lparr>heap := (heap w)(r \<mapsto> stream')\<rparr>;
                                  (p2, w2) = track_usage p1 n w1
                              in Inr ((n, None), out, p2, w2))))))"

section \<open>Shard pools and the reader\<close>

text \<open>
  The \<open>New\<close> closure of a shard's pool: the one \<open>NewReader\<close> builds returns \<open>nil\<close> when
  the retries are used up, the one \<open>init\<close> builds panics. Both capture the shard's copy of
  the configuration.
\<close>

datatype factory = NewReader_New Config | init_New Config

text \<open>The loop \<open>for r := 0; r < cfg.MaxInitRetries; r++\<close> of both closures.\<close>

function init_retry :: "env \<Rightarrow> Config \<Rightarrow> int \<Rightarrow> world \<Rightarrow> prng option \<times> world" where
  "init_retry e cfg r w =
     (if r < MaxInitRetries cfg
      then (case newPRNG e cfg w of
              (Inr p, w1) \<Rightarrow> (Some p, w1)
            | (Inl err, w1) \<Rightarrow> init_retry e cfg (r + 1) w1)
      else (None, w))"
  by pat_completeness auto
termination
  by (relation "measure (\<lambda>(e, cfg, r, w). nat (MaxInitRetries cfg - r))") auto

declare init_retry.simps [simp del]

definition call_New :: "env \<Rightarrow> factory \<Rightarrow> world \<Rightarrow> panic + (prng option \<times> world)" where
  "call_New e f w =
     (case f of
        NewReader_New cfg \<Rightarrow> Inr (init_retry e cfg 0 w)
      | init_New cfg \<Rightarrow>
          (case init_retry e cfg 0 w of
             (Some p, w1) \<Rightarrow> Inr (Some p, w1)
           | (None, w1) \<Rightarrow> Inl (PoolInitPanic (MaxInitRetries cfg))))"

text \<open>
  Modelled from the spec: \<open>sync.Pool\<close> is a library; a pool is "an unbounded LIFO cache of
  idle generator instances with a user-supplied factory invoked on underflow".
\<close>

record pool =
  idle :: "prng list"
  New :: factory

definition pool_Get :: "env \<Rightarrow> pool \<Rightarrow> world \<Rightarrow> panic + (prng option \<times> pool \<times> world)" where
  "pool_Get e pl w =
     (case idle pl of
        p # rest \<Rightarrow> Inr (Some p, pl\<lparr>idle := rest\<rparr>, w)
      | [] \<Rightarrow>
          (case call_New e (New pl) w of
             Inl pn \<Rightarrow> Inl pn
           | Inr (item, w1) \<Rightarrow> Inr (item, pl, w1)))"

definition pool_Put :: "prng \<Rightarrow> pool \<Rightarrow> pool" where
  "pool_Put p pl = pl\<lparr>idle := p # idle pl\<rparr>"

text \<open>The \<open>config\<close> field of a \<open>reader\<close> is a pointer: \<open>None\<close> is \<open>nil\<close>.\<close>

record reader =
  rconfig :: "Config option"
  pools :: "pool list"

text \<open>
  The loop \<open>for i := range pools\<close> of \<open>NewReader\<close>, on the shards still to be built: the
  pool, the eager \<open>Get\<close>, and the \<open>Put\<close> or the error.
\<close>

fun NewReader_shards ::
  "env \<Rightarrow> Config \<Rightarrow> nat \<Rightarrow> world \<Rightarrow> panic + ((error + pool list) \<times> world)" where
  "NewReader_shards e cfg 0 w = Inr (Inr [], w)"
| "NewReader_shards e cfg (Suc k) w =
     (let pl = \<lparr>idle = [], New = NewReader_New cfg\<rparr>
      in case pool_Get e pl w of
           Inl pn \<Rightarrow> Inl pn
         | Inr (None, pl1, w1) \<Rightarrow> Inr (Inl (PoolInitFailed (MaxInitRetries cfg)), w1)
         | Inr (Some item, pl1, w1) \<Rightarrow>
             (case NewReader_shards e cfg k w1 of
                Inl pn \<Rightarrow> Inl pn
              | Inr (Inl err, w2) \<Rightarrow> Inr (Inl err, w2)
              | Inr (Inr rest, w2) \<Rightarrow> Inr (Inr (pool_Put item pl1 # rest), w2)))"

text \<open>\<open>NewReader\<close>; \<open>make\<close> panics on a negative length.\<close>

definition NewReader ::
  "env \<Rightarrow> Option list \<Rightarrow> world \<Rightarrow> panic + ((error + reader) \<times> world)" where
  "NewReader e opts w =
     (let cfg0 = apply_Options opts (DefaultConfig (gomaxprocs e));
          cfg = (if Shards cfg0 \<le> 0 then cfg0\<lparr>Shards := gomaxprocs e\<rparr> else cfg0)
      in if Shards cfg < 0 then Inl NegativeLen
         else (case NewReader_shards e cfg (nat (Shards cfg)) w of
                 Inl pn \<Rightarrow> Inl pn
               | Inr (Inl err, w1) \<Rightarrow> Inr (Inl err, w1)
               | Inr (Inr ps, w1) \<Rightarrow> Inr (Inr \<lparr>rconfig = Some cfg, pools = ps\<rparr>, w1)))"

text \<open>The loop of \<open>init\<close>: the closure panics, and the item is put back.\<close>

fun init_shards :: "env \<Rightarrow> Config \<Rightarrow> nat \<Rightarrow> world \<Rightarrow> panic + (pool list \<times> world)" where
  "init_shards e cfg 0 w = Inr ([], w)"
| "init_shards e cfg (Suc k) w =
     (let pl = \<lparr>idle = [], New = init_New cfg\<rparr>
      in case pool_Get e pl w of
           Inl pn \<Rightarrow> Inl pn
         | Inr (None, pl1, w1) \<Rightarrow> Inl NilInterface
         | Inr (Some item, pl1, w1) \<Rightarrow>
             (case init_shards e cfg k w1 of
                Inl pn \<Rightarrow> Inl pn
              | Inr (rest, w2) \<Rightarrow> Inr (pool_Put item pl1 # rest, w2)))"

text \<open>\<open>init\<close>: the package-level \<open>Reader\<close> is \<open>&reader{pools: pools}\<close>.\<close>

definition init :: "env \<Rightarrow> world \<Rightarrow> panic + (reader \<times> world)" where
  "init e w =
     (let cfg = DefaultConfig (gomaxprocs e)
      in if Shards cfg < 0 then Inl NegativeLen
         else (case init_shards e cfg (nat (Shards cfg)) w of
                 Inl pn \<Rightarrow> Inl pn
               | Inr (ps, w1) \<Rightarrow> Inr (\<lparr>rconfig = None, pools = ps\<rparr>, w1)))"

text \<open>\<open>reader.Config\<close>: \<open>return *r.config\<close>.\<close>

definition reader_Config :: "reader \<Rightarrow> panic + Config" where
  "reader_Config r = (case rconfig r of None \<Rightarrow> Inl NilDereference | Some c \<Rightarrow> Inr c)"

text \<open>\<open>shardIndex\<close>: \<open>mrand.IntN(n)\<close> panics if \<open>n \<le> 0\<close> and answers in \<open>[0, n)\<close>.\<close>

definition shardIndex :: "env \<Rightarrow> nat \<Rightarrow> world \<Rightarrow> panic + (nat \<times> world)" where
  "shardIndex e n w =
     (if n = 0 then Inl InvalidArgument
      else Inr (intn e (mrand_calls w) n mod n, w\<lparr>mrand_calls := Suc (mrand_calls w)\<rparr>))"

text \<open>
  \<open>reader.Read\<close>: the returned \<open>(n, err)\<close>, the buffer after the call, the reader and the
  world. The deferred \<open>Put\<close> hands the borrowed instance back to its shard.
\<close>

definition reader_Read ::
  "env \<Rightarrow> reader \<Rightarrow> byte list \<Rightarrow> world \<Rightarrow>
   panic + ((nat \<times> error option) \<times> byte list \<times> reader \<times> world)" where
  "reader_Read e r b w =
     (if length b = 0 then Inr ((0, None), b, r, w)
      else (let n = length (pools r)
            in case (if n > 1 then shardIndex e n w else Inr (0, w)) of
                 Inl pn \<Rightarrow> Inl pn
               | Inr (shard, w1) \<Rightarrow>
                   (if shard \<ge> n then Inl IndexOutOfRange
                    else (case pool_Get e (pools r ! shard) w1 of
                            Inl pn \<Rightarrow> Inl pn
                          | Inr (None, pl, w2) \<Rightarrow> Inl NilInterface
                          | Inr (Some p, pl, w2) \<Rightarrow>
                              (case prng_Read e p b w2 of
                                 Inl pn \<Rightarrow> Inl pn
                               | Inr (res, out, p', w3) \<Rightarrow>
                                   Inr (res, out,
                                        r\<lparr>pools := (pools r)[shard := pool_Put p' pl]\<rparr>,
                                        w3))))))"

section \<open>Rekey worker\<close>

text \<open>
  How a goroutine ends: it returns, it panics (its deferred calls run), or the process is
  ended under it (nothing runs any more).
\<close>

datatype exit = Returned | Panicked panic | Died

text \<open>
  \<open>crypto/rand.Read\<close> on the Go the repository builds with (1.25): it reads the entropy
  source in full, never returns an error, and ends the process when the source fails.
  \<open>None\<close> is the end of the process; the error of a call that returns is always \<open>nil\<close>.
\<close>

definition rand_Read :: "env \<Rightarrow> nat \<Rightarrow> world \<Rightarrow> (error option \<times> byte list) option \<times> world" where
  "rand_Read e n w =
     (case ReadFull e n w of
        (Some bs, w1) \<Rightarrow> (Some (None, bs), w1)
      | (None, w1) \<Rightarrow> (None, w1))"

text \<open>
  The failure branch of an attempt: eight entropy bytes, the jittered sleep, or the plain
  one when the draw returns an error. \<open>rnd % uint64(base)\<close> is the unsigned remainder and
  panics on a zero divisor; the conversions between \<open>uint64\<close> and \<open>Duration\<close> keep the
  bits. \<open>Returned\<close> is the branch that goes on to the next attempt.
\<close>

definition backoff_sleep :: "env \<Rightarrow> Duration \<Rightarrow> world \<Rightarrow> exit \<times> world" where
  "backoff_sleep e base w =
     (case rand_Read e 8 w of
        (None, w1) \<Rightarrow> (Died, w1)
      | (Some (None, b), w1) \<Rightarrow>
          (let rnd = BigEndian_Uint64 b
           in if base = 0 then (Panicked DivideByZero, w1)
              else (let delay = base + rnd mod base in (Returned, log_event (Slept delay) w1)))
      | (Some (Some err, b), w1) \<Rightarrow> (Returned, log_event (Slept base) w1))"

text \<open>\<open>base *= 2; if base > maxBackoff { base = maxBackoff }\<close> on \<open>int64\<close>.\<close>

definition next_backoff :: "Duration \<Rightarrow> Duration \<Rightarrow> Duration" where
  "next_backoff base maxBackoff =
     (let b = base * 2 in if maxBackoff <s b then maxBackoff else b)"

text \<open>
  The loop \<open>for i := 0; i < p.config.MaxRekeyAttempts; i++\<close>. The result is how the loop
  ended, the instance and the world.
\<close>

function rekey_loop ::
  "env \<Rightarrow> prng \<Rightarrow> Duration \<Rightarrow> int \<Rightarrow> Duration \<Rightarrow> world \<Rightarrow> exit \<times> prng \<times> world" where
  "rekey_loop e p maxBackoff i base w =
     (if i < MaxRekeyAttempts (config p)
      then (case cipher p of
              None \<Rightarrow> (Panicked NilInterface, p, w)
            | Some old \<Rightarrow>
                (case newCipher e w of
                   (Inr stream, w1) \<Rightarrow>
                     (let w2 = log_event (CipherStored stream) w1;
                          w3 = log_event (UsageStored 0) w2;
                          w4 = log_event (CipherWiped old)
                                 (w3\<lparr>heap := (heap w3)(old \<mapsto> zero_Cipher)\<rparr>)
                      in (Returned, p\<lparr>cipher := Some stream, usage := 0\<rparr>, w4))
                 | (Inl err, w1) \<Rightarrow>
                     (case backoff_sleep e base w1 of
                        (Returned, w2) \<Rightarrow>
                          rekey_loop e p maxBackoff (i + 1) (next_backoff base maxBackoff) w2
                      | (ex, w2) \<Rightarrow> (ex, p, w2))))
      else (Returned, p, w))"
  by pat_completeness auto
termination
  by (relation "measure (\<lambda>(e, p, m, i, b, w). nat (MaxRekeyAttempts (config p) - i))") auto

declare rekey_loop.simps [simp del]

text \<open>
  \<open>asyncRekey\<close>. The deferred store of \<open>rekeying\<close> runs on the return and on a panic
  alike, and not when the process is ended.
\<close>

definition asyncRekey :: "env \<Rightarrow> prng \<Rightarrow> world \<Rightarrow> exit \<times> prng \<times> world" where
  "asyncRekey e p w =
     (let base = RekeyBackoff (config p);
          maxBackoff = (if MaxRekeyBackoff (config p) = 0 then maxRekeyBackoff
                        else MaxRekeyBackoff (config p));
          (ex, p', w') = rekey_loop e p maxBackoff 0 base w
      in if ex = Died then (Died, p', w')
         else (ex, p'\<lparr>rekeying := 0\<rparr>, log_event (RekeyingStored 0) w'))"

section \<open>The specification's words, and concrete inputs\<close>

text \<open>
  The fields of a configuration by name, the field an option names and the value it
  carries: the "field-by-field image" of a list of options over a configuration is, for
  each field, the value of the last option naming it, or the configuration's own.
\<close>

datatype field = F_MaxBytesPerKey | F_MaxInitRetries | F_MaxRekeyAttempts | F_MaxRekeyBackoff
  | F_RekeyBackoff | F_EnableKeyRotation | F_UseZeroBuffer | F_DefaultBufferSize | F_Shards

datatype fvalue = VU64 uint64 | VInt int | VDur Duration | VBool bool

fun get_field :: "field \<Rightarrow> Config \<Rightarrow> fvalue" where
  "get_field F_MaxBytesPerKey c = VU64 (MaxBytesPerKey c)"
| "get_field F_MaxInitRetries c = VInt (MaxInitRetries c)"
| "get_field F_MaxRekeyAttempts c = VInt (MaxRekeyAttempts c)"
| "get_field F_MaxRekeyBackoff c = VDur (MaxRekeyBackoff c)"
| "get_field F_RekeyBackoff c = VDur (RekeyBackoff c)"
| "get_field F_EnableKeyRotation c = VBool (EnableKeyRotation c)"
| "get_field F_UseZeroBuffer c = VBool (UseZeroBuffer c)"
| "get_field F_DefaultBufferSize c = VInt (DefaultBufferSize c)"
| "get_field F_Shards c = VInt (Shards c)"

fun option_field :: "Option \<Rightarrow> field" where
  "option_field (WithMaxBytesPerKey n) = F_MaxBytesPerKey"
| "option_field (WithMaxInitRetries r) = F_MaxInitRetries"
| "option_field (WithMaxRekeyAttempts r) = F_MaxRekeyAttempts"
| "option_field (WithMaxRekeyBackoff d) = F_MaxRekeyBackoff"
| "option_field (WithRekeyBackoff d) = F_RekeyBackoff"
| "option_field (WithEnableKeyRotation b) = F_EnableKeyRotation"
| "option_field (WithZeroBuffer b) = F_UseZeroBuffer"
| "option_field (WithDefaultBufferSize n) = F_DefaultBufferSize"
| "option_field (WithShards n) = F_Shards"

fun option_value :: "Option \<Rightarrow> fvalue" where
  "option_value (WithMaxBytesPerKey n) = VU64 n"
| "option_value (WithMaxInitRetries r) = VInt r"
| "option_value (WithMaxRekeyAttempts r) = VInt r"
| "option_value (WithMaxRekeyBackoff d) = VDur d"
| "option_value (WithRekeyBackoff d) = VDur d"
| "option_value (WithEnableKeyRotation b) = VBool b"
| "option_value (WithZeroBuffer b) = VBool b"
| "option_value (WithDefaultBufferSize n) = VInt n"
| "option_value (WithShards n) = VInt n"

definition field_image :: "Option list \<Rightarrow> Config \<Rightarrow> field \<Rightarrow> fvalue" where
  "field_image opts c f =
     (case filter (\<lambda>opt. option_field opt = f) opts of
        [] \<Rightarrow> get_field f c
      | x # xs \<Rightarrow> option_value (last (x # xs)))"

definition spec_field :: "int \<Rightarrow> Option list \<Rightarrow> field \<Rightarrow> fvalue" where
  "spec_field procs opts f =
     (let v = field_image opts (DefaultConfig procs) f
      in if f = F_Shards \<and> (case v of VInt n \<Rightarrow> n \<le> 0 | _ \<Rightarrow> False) then VInt procs else v)"

text \<open>
  An entropy source that answers every read in full, with a keystream whose byte \<open>i\<close> is
  \<open>i + 7\<close>, on two processors; and the world before anything ran.
\<close>

definition E_ok :: env where
  "E_ok = \<lparr>entropy = (\<lambda>k n. Some (replicate n (of_nat k))),
           keystream = (\<lambda>k n i. of_nat i + 7), intn = (\<lambda>k n. k), gomaxprocs = 2\<rparr>"

definition W0 :: world where
  "W0 = \<lparr>heap = Map.empty, next_ref = 0, rand_calls = 0, mrand_calls = 0, trace = []\<rparr>"

text \<open>
  Invariant I2 for an instance: its cipher reference is set and names a cipher object. A
  reader is well formed when it has a shard and every shard holds idle instances, all of
  them with a cipher; \<open>NewReader\<close> and \<open>init\<close> build such readers.
\<close>

definition prng_ok :: "prng \<Rightarrow> world \<Rightarrow> bool" where
  "prng_ok p w = (case cipher p of None \<Rightarrow> False | Some r \<Rightarrow> heap w r \<noteq> None)"

definition reader_ok :: "reader \<Rightarrow> world \<Rightarrow> bool" where
  "reader_ok r w =
     (pools r \<noteq> [] \<and>
      (\<forall>pl \<in> set (pools r). idle pl \<noteq> [] \<and> (\<forall>p \<in> set (idle pl). prng_ok p w)))"

text \<open>
  An instance whose cipher has \<open>n\<close> keystream bytes left. A shard that can serve a read of
  \<open>n\<close> bytes: its first idle instance has them, or it has no idle instance and its factory
  builds one. A reader all of whose shards can.
\<close>

definition prng_live :: "prng \<Rightarrow> world \<Rightarrow> nat \<Rightarrow> bool" where
  "prng_live p w n =
     (case cipher p of
        None \<Rightarrow> False
      | Some r \<Rightarrow> (case heap w r of None \<Rightarrow> False | Some c \<Rightarrow> cpos c + n \<le> keystream_limit))"



text \<open>The scratch buffer holds zero bytes only, over its whole capacity.\<close>

definition zero_ok :: "prng \<Rightarrow> bool" where
  "zero_ok p = (\<forall>x \<in> set (arr (zero p)). x = 0)"

text \<open>A world with one cipher object, an instance on it, and a one-shard reader.\<close>

definition W1 :: world where
  "W1 = \<lparr>heap = [0 \<mapsto> \<lparr>ckey = replicate 32 1, cnonce = replicate 24 2, cpos = 5\<rparr>],
         next_ref = 1, rand_calls = 2, mrand_calls = 0, trace = []\<rparr>"

definition P1 :: prng where
  "P1 = \<lparr>config = DefaultConfig 2, cipher = Some 0, zero = make_bytes 0, usage = 0, rekeying = 0\<rparr>"




text \<open>The bytes a read leaves in the caller's buffer.\<close>

definition Read_bytes :: "env \<Rightarrow> prng \<Rightarrow> byte list \<Rightarrow> world \<Rightarrow> byte list option" where
  "Read_bytes e p b w =
     (case prng_Read e p b w of Inl pn \<Rightarrow> None | Inr (res, out, p', w') \<Rightarrow> Some out)"

text \<open>The cipher objects a read leaves behind.\<close>

definition Read_heap :: "env \<Rightarrow> prng \<Rightarrow> byte list \<Rightarrow> world \<Rightarrow> (ref \<Rightarrow> Cipher option) option" where
  "Read_heap e p b w =
     (case prng_Read e p b w of Inl pn \<Rightarrow> None | Inr (res, out, p', w') \<Rightarrow> Some (heap w'))"

text \<open>The next \<open>n\<close> keystream bytes of a cipher.\<close>

definition next_keystream :: "env \<Rightarrow> Cipher \<Rightarrow> nat \<Rightarrow> byte list" where
  "next_keystream e c n = map (\<lambda>i. keystream e (ckey c) (cnonce c) (cpos c + i)) [0..<n]"

text \<open>The instance \<open>P1\<close> in zero-buffer mode, and with key rotation after two bytes.\<close>

definition PZ :: prng where
  "PZ = P1\<lparr>config := (DefaultConfig 2)\<lparr>UseZeroBuffer := True\<rparr>, zero := make_bytes 64\<rparr>"

definition PR :: prng where
  "PR = P1\<lparr>config := (DefaultConfig 2)\<lparr>EnableKeyRotation := True, MaxBytesPerKey := 2\<rparr>\<rparr>"

text \<open>An entropy source that refuses every read.\<close>

definition E_fail :: env where
  "E_fail = \<lparr>entropy = (\<lambda>k n. None), keystream = (\<lambda>k n i. 0), intn = (\<lambda>k n. 0),
             gomaxprocs = 2\<rparr>"

text \<open>The maximum the worker clamps to: the configured one, or the default when it is 0.\<close>

definition maxBackoff_of :: "Config \<Rightarrow> Duration" where
  "maxBackoff_of cfg =
     (if MaxRekeyBackoff cfg = 0 then maxRekeyBackoff else MaxRekeyBackoff cfg)"

text \<open>
  The backoff in force after \<open>i\<close> failed attempts: the configured initial value, then
  doubled and clamped after each failure.
\<close>

fun backoff_at :: "Config \<Rightarrow> nat \<Rightarrow> Duration" where
  "backoff_at cfg 0 = RekeyBackoff cfg"
| "backoff_at cfg (Suc i) = next_backoff (backoff_at cfg i) (maxBackoff_of cfg)"

text \<open>The closed form of claim C8, on the integers.\<close>

definition claimed_backoff :: "Config \<Rightarrow> nat \<Rightarrow> int" where
  "claimed_backoff cfg i = min (sint (RekeyBackoff cfg) * 2 ^ i) (sint (MaxRekeyBackoff cfg))"

text \<open>Durations the doubling cannot overflow: positive and below \<open>2^62\<close> nanoseconds.\<close>

definition sane_backoff :: "Duration \<Rightarrow> bool" where
  "sane_backoff d = (0 < sint d \<and> sint d < 2 ^ 62)"

text \<open>The events of a failed attempt: the factory call and the sleep.\<close>

fun is_attempt_event :: "event \<Rightarrow> bool" where
  "is_attempt_event CipherFactoryCalled = True"
| "is_attempt_event (Slept d) = True"
| "is_attempt_event ev = False"

definition factory_calls :: "event list \<Rightarrow> nat" where
  "factory_calls evs = length (filter (\<lambda>ev. ev = CipherFactoryCalled) evs)"

text \<open>The eight-byte draw that the \<open>k\<close>-th read of the entropy source answers.\<close>

definition jitter_draw :: "env \<Rightarrow> nat \<Rightarrow> byte list option" where
  "jitter_draw e k =
     (case entropy e k 8 of None \<Rightarrow> None | Some bs \<Rightarrow> if length bs = 8 then Some bs else None)"

text \<open>The sleep claim C8 gives after \<open>i\<close> failures for a draw \<open>rnd\<close>, on the integers.\<close>

definition claimed_delay :: "Config \<Rightarrow> nat \<Rightarrow> uint64 \<Rightarrow> int" where
  "claimed_delay cfg i rnd = claimed_backoff cfg i + uint rnd mod claimed_backoff cfg i"

text \<open>
  An entropy source whose 32-byte key reads fail and whose 8-byte draws succeed; and
  instances with an initial backoff above the maximum, with no backoff at all, and with a
  backoff of \<open>2^62\<close> ns.
\<close>

definition E_jit :: env where
  "E_jit = \<lparr>entropy = (\<lambda>k n. if n = 8 then Some (replicate 8 1) else None),
            keystream = (\<lambda>k n i. 0), intn = (\<lambda>k n. 0), gomaxprocs = 2\<rparr>"

definition P3 :: prng where
  "P3 = P1\<lparr>config := (DefaultConfig 2)\<lparr>RekeyBackoff := 3 * Second, MaxRekeyAttempts := 1\<rparr>\<rparr>"

definition P0 :: prng where
  "P0 = P1\<lparr>config := (DefaultConfig 2)\<lparr>RekeyBackoff := 0, MaxRekeyBackoff := 0\<rparr>\<rparr>"

definition P62 :: prng where
  "P62 = P1\<lparr>config := (DefaultConfig 2)\<lparr>RekeyBackoff := 4611686018427387904\<rparr>\<rparr>"

section \<open>Configuration round trip\<close>

lemma apply_Option_field:
  "get_field f (apply_Option opt c) = (if option_field opt = f then option_value opt else get_field f c)"
  by (cases opt; cases f) simp_all

lemma apply_Options_field:
  "get_field f (apply_Options opts c) = field_image opts c f"
proof (induction opts arbitrary: c)
  case Nil
  then show ?case by (simp add: field_image_def)
next
  case (Cons opt opts)
  show ?case
  proof (cases "option_field opt = f")
    case True
    then show ?thesis
      using Cons.IH [of "apply_Option opt c"]
      by (simp add: field_image_def apply_Option_field split: list.splits)
  next
    case False
    then show ?thesis
      using Cons.IH [of "apply_Option opt c"]
      by (simp add: field_image_def apply_Option_field split: list.splits)
  qed
qed

lemma NewReader_rconfig:
  "NewReader e opts w = Inr (Inr r, w') \<Longrightarrow> rconfig r = Some (compose_Config (gomaxprocs e) opts)"
  by (auto simp: NewReader_def compose_Config_def Let_def split: if_splits sum.splits prod.splits)

lemma compose_Config_field:
  "get_field f (compose_Config procs opts) = spec_field procs opts f"
  by (cases f) (auto simp: compose_Config_def spec_field_def Let_def apply_Options_field [symmetric])

text \<open>
  C6: the configuration a reader built by \<open>NewReader\<close> answers is, field by field, the
  image of the defaults under the options in order, with a \<open>Shards\<close> value \<open>\<le> 0\<close> replaced
  by the processor count; and each recognized option overwrites the one field it names and
  no other.
\<close>

theorem NewReader_Config_image:
  assumes "NewReader e opts w = Inr (Inr r, w')"
  shows "\<exists>c. reader_Config r = Inr c
           \<and> (\<forall>f. get_field f c = spec_field (gomaxprocs e) opts f)
           \<and> (\<forall>opt d f. get_field f (apply_Option opt d)
                 = (if f = option_field opt then option_value opt else get_field f d))"
  using NewReader_rconfig [OF assms]
  by (auto simp: reader_Config_def compose_Config_field apply_Option_field)

theorem NewReader_Config_image_witness:
  "case NewReader E_ok [WithShards 0, WithMaxInitRetries 7, WithShards (-1)] W0 of
     Inr (Inr r, w') \<Rightarrow>
       (\<exists>c. reader_Config r = Inr c \<and> get_field F_Shards c = VInt 2
            \<and> get_field F_MaxInitRetries c = VInt 7 \<and> get_field F_UseZeroBuffer c = VBool False)
   | _ \<Rightarrow> False"
proof -
  obtain r w' where h: "NewReader E_ok [WithShards 0, WithMaxInitRetries 7, WithShards (-1)] W0 = Inr (Inr r, w')"
    by (simp add: NewReader_def E_ok_def W0_def DefaultConfig_def numeral_2_eq_2 pool_Get_def call_New_def init_retry.simps newPRNG_def newCipher_def ReadFull_def log_event_def KeySize_def NonceSizeX_def NewUnauthenticatedCipher_def pool_Put_def Let_def)
  have g: "gomaxprocs E_ok = 2" by (simp add: E_ok_def)
  from NewReader_Config_image [OF h] obtain c where
    c: "reader_Config r = Inr c" and
    img: "\<And>f. get_field f c = spec_field (gomaxprocs E_ok)
                  [WithShards 0, WithMaxInitRetries 7, WithShards (-1)] f"
    by blast
  have "get_field F_Shards c = VInt 2"
    by (simp add: img g spec_field_def field_image_def DefaultConfig_def)
  moreover have "get_field F_MaxInitRetries c = VInt 7"
    by (simp add: img g spec_field_def field_image_def DefaultConfig_def)
  moreover have "get_field F_UseZeroBuffer c = VBool False"
    by (simp add: img g spec_field_def field_image_def DefaultConfig_def)
  ultimately show ?thesis
    using c by (simp add: h)
qed


section \<open>The reads: when they return, when they panic\<close>

lemma XORKeyStream_Inr:
  "XORKeyStream e c src = Inr (out, c') \<Longrightarrow>
     out = map (\<lambda>i. (src ! i) XOR keystream e (ckey c) (cnonce c) (cpos c + i)) [0..<length src]
     \<and> c' = c\<lparr>cpos := cpos c + length src\<rparr>"
  by (auto simp: XORKeyStream_def split: if_splits)

lemma XORKeyStream_within:
  "cpos c + length src \<le> keystream_limit \<Longrightarrow>
     XORKeyStream e c src =
       Inr (map (\<lambda>i. (src ! i) XOR keystream e (ckey c) (cnonce c) (cpos c + i)) [0..<length src],
            c\<lparr>cpos := cpos c + length src\<rparr>)"
  by (simp add: XORKeyStream_def)

lemma XORKeyStream_beyond:
  "src \<noteq> [] \<Longrightarrow> keystream_limit < cpos c + length src \<Longrightarrow>
     XORKeyStream e c src = Inl CounterOverflow"
  by (simp add: XORKeyStream_def)

lemma zero_slice_length:
  "length (contents (if cap (zero p) < n then make_bytes n else reslice (zero p) n)) = n"
  by (simp add: contents_def make_bytes_def reslice_def cap_def)

lemma generate_frame:
  "generate e p stream b = Inr (out, p1, stream') \<Longrightarrow>
     length out = length b \<and> cipher p1 = cipher p \<and> config p1 = config p
     \<and> usage p1 = usage p \<and> rekeying p1 = rekeying p"
  using zero_slice_length [of p "length b"]
  by (auto simp: generate_def Let_def split: if_splits sum.splits dest!: XORKeyStream_Inr)

lemma generate_within:
  assumes "cpos c + length b \<le> keystream_limit"
  shows "\<exists>out p1. generate e p c b = Inr (out, p1, c\<lparr>cpos := cpos c + length b\<rparr>)"
  using assms zero_slice_length [of p "length b"]
  by (simp add: generate_def Let_def XORKeyStream_within)

lemma generate_beyond:
  assumes "b \<noteq> []" "keystream_limit < cpos c + length b"
  shows "generate e p c b = Inl CounterOverflow"
proof -
  have "contents (if cap (zero p) < length b then make_bytes (length b)
                  else reslice (zero p) (length b)) \<noteq> []"
    using assms(1) zero_slice_length [of p "length b"] by (metis length_0_conv)
  then show ?thesis
    using assms zero_slice_length [of p "length b"]
    by (simp add: generate_def Let_def XORKeyStream_beyond)
qed

lemma track_usage_frame:
  "track_usage p n w = (p2, w2) \<Longrightarrow>
     cipher p2 = cipher p \<and> config p2 = config p \<and> zero p2 = zero p \<and> heap w2 = heap w
     \<and> next_ref w2 = next_ref w \<and> rand_calls w2 = rand_calls w \<and> mrand_calls w2 = mrand_calls w"
  by (auto simp: track_usage_def Let_def log_event_def split: if_splits)


lemma prng_live_ok: "prng_live p w n \<Longrightarrow> prng_ok p w"
  by (auto simp: prng_live_def prng_ok_def split: option.splits)

lemma prng_Read_total:
  assumes "prng_live p w (length b)"
  shows "\<exists>out p' w'. prng_Read e p b w = Inr ((length b, None), out, p', w')
           \<and> length out = length b \<and> cipher p' = cipher p \<and> config p' = config p
           \<and> (\<forall>q. prng_ok q w \<longrightarrow> prng_ok q w')"
proof (cases "b = []")
  case True
  then show ?thesis by (simp add: prng_Read_def)
next
  case False
  from assms obtain r stream where r: "cipher p = Some r" "heap w r = Some stream"
    and lim: "cpos stream + length b \<le> keystream_limit"
    by (auto simp: prng_live_def split: option.splits)
  from generate_within [OF lim, of e p] obtain out p1 where
    g: "generate e p stream b = Inr (out, p1, stream\<lparr>cpos := cpos stream + length b\<rparr>)"
    by blast
  define w1 where "w1 = w\<lparr>heap := (heap w)(r \<mapsto> stream\<lparr>cpos := cpos stream + length b\<rparr>)\<rparr>"
  obtain p2 w2 where t: "track_usage p1 (length b) w1 = (p2, w2)"
    by (cases "track_usage p1 (length b) w1") auto
  have rd: "prng_Read e p b w = Inr ((length b, None), out, p2, w2)"
    using False r g t by (simp add: prng_Read_def Let_def w1_def)
  have h2: "heap w2 = (heap w)(r \<mapsto> stream\<lparr>cpos := cpos stream + length b\<rparr>)"
    using track_usage_frame [OF t] by (simp add: w1_def)
  have "\<forall>q. prng_ok q w \<longrightarrow> prng_ok q w2"
    by (auto simp: prng_ok_def h2 split: option.splits)
  then show ?thesis
    using rd generate_frame [OF g] track_usage_frame [OF t] by simp
qed














section \<open>The zero buffer and the two output modes\<close>

lemma newPRNG_zero_ok: "newPRNG e cfg w = (Inr p, w1) \<Longrightarrow> zero_ok p"
  by (auto simp: newPRNG_def zero_ok_def make_bytes_def split: prod.splits sum.splits if_splits)

lemma XORKeyStream_zeros:
  "cpos c + n \<le> keystream_limit \<Longrightarrow>
     XORKeyStream e c (replicate n 0) = Inr (next_keystream e c n, c\<lparr>cpos := cpos c + n\<rparr>)"
  by (simp add: XORKeyStream_def next_keystream_def)

lemma XORKeyStream_xor:
  "cpos c + length b \<le> keystream_limit \<Longrightarrow>
     XORKeyStream e c b
       = Inr (map2 (XOR) b (next_keystream e c (length b)), c\<lparr>cpos := cpos c + length b\<rparr>)"
  by (auto simp: XORKeyStream_def next_keystream_def intro!: nth_equalityI)

lemma zero_contents:
  assumes "zero_ok p"
  shows "contents (if cap (zero p) < n then make_bytes n else reslice (zero p) n) = replicate n 0"
proof (cases "cap (zero p) < n")
  case True
  then show ?thesis by (simp add: contents_def make_bytes_def)
next
  case False
  have "take n (arr (zero p)) = replicate n 0"
  proof (rule nth_equalityI)
    show "length (take n (arr (zero p))) = length (replicate n (0::byte))"
      using False by (simp add: cap_def)
  next
    fix i assume "i < length (take n (arr (zero p)))"
    then show "take n (arr (zero p)) ! i = replicate n (0::byte) ! i"
      using assms by (simp add: zero_ok_def)
  qed
  then show ?thesis using False by (simp add: contents_def reslice_def)
qed

lemma generate_zero_mode:
  assumes "zero_ok p" "UseZeroBuffer (config p)" "cpos c + length b \<le> keystream_limit"
  shows "generate e p c b =
           Inr (next_keystream e c (length b),
                p\<lparr>zero := (if cap (zero p) < length b then make_bytes (length b)
                            else reslice (zero p) (length b))\<rparr>,
                c\<lparr>cpos := cpos c + length b\<rparr>)"
  using assms(2) zero_contents [OF assms(1), of "length b"] XORKeyStream_zeros [OF assms(3), of e]
  by (simp add: generate_def Let_def)

lemma generate_in_place:
  assumes "\<not> UseZeroBuffer (config p)" "cpos c + length b \<le> keystream_limit"
  shows "generate e p c b =
           Inr (map2 (XOR) b (next_keystream e c (length b)), p,
                c\<lparr>cpos := cpos c + length b\<rparr>)"
  using assms by (simp add: generate_def Let_def XORKeyStream_xor)

lemma generate_Inr_within:
  assumes "b \<noteq> []" "generate e p c b = Inr x"
  shows "cpos c + length b \<le> keystream_limit"
proof (rule ccontr)
  assume "\<not> cpos c + length b \<le> keystream_limit"
  then have "generate e p c b = Inl CounterOverflow"
    using assms(1) by (simp add: generate_beyond)
  then show False using assms(2) by simp
qed

lemma generate_zero_ok:
  assumes "zero_ok p" "generate e p c b = Inr (out, p1, c1)"
  shows "zero_ok p1"
  using assms
  by (auto simp: generate_def Let_def zero_ok_def make_bytes_def reslice_def
      split: if_splits sum.splits)

lemma prng_Read_unfold:
  assumes "b \<noteq> []" "prng_Read e p b w = Inr (res, out, p', w')"
  shows "\<exists>r c p1 c1. cipher p = Some r \<and> heap w r = Some c
           \<and> generate e p c b = Inr (out, p1, c1)
           \<and> track_usage p1 (length b) (w\<lparr>heap := (heap w)(r \<mapsto> c1)\<rparr>) = (p', w')
           \<and> res = (length b, None)"
  using assms
  by (auto simp: prng_Read_def Let_def split: option.splits prod.splits sum.splits)

text \<open>
  C10: the scratch buffer is all zero when an instance is built; a read keeps it all zero,
  either allocating it anew or reslicing it within its capacity; and in zero-buffer mode
  the bytes written are the next keystream bytes of the cipher, whatever the buffer held.
\<close>

theorem zero_buffer_invariant:
  "(newPRNG e cfg v = (Inr p0, v') \<longrightarrow> zero_ok p0)
   \<and> (zero_ok p \<and> prng_Read e p b w = Inr (res, out, p', w') \<longrightarrow>
        zero_ok p'
        \<and> (UseZeroBuffer (config p) \<and> b \<noteq> [] \<longrightarrow>
             (zero p' = make_bytes (length b)
              \<or> length b \<le> cap (zero p) \<and> zero p' = reslice (zero p) (length b))
             \<and> (\<exists>r c. cipher p = Some r \<and> heap w r = Some c
                   \<and> out = next_keystream e c (length b))))"
proof (intro conjI impI)
  assume "newPRNG e cfg v = (Inr p0, v')"
  then show "zero_ok p0" by (rule newPRNG_zero_ok)
next
  assume a: "zero_ok p \<and> prng_Read e p b w = Inr (res, out, p', w')"
  show "zero_ok p'"
  proof (cases "b = []")
    case True
    then show ?thesis using a by (auto simp: prng_Read_def)
  next
    case False
    from prng_Read_unfold [OF False] a obtain r c p1 c1 where
      g: "generate e p c b = Inr (out, p1, c1)" and
      t: "track_usage p1 (length b) (w\<lparr>heap := (heap w)(r \<mapsto> c1)\<rparr>) = (p', w')"
      by blast
    have "zero_ok p1" using a g by (blast intro: generate_zero_ok)
    then show ?thesis
      using t by (auto simp: track_usage_def Let_def zero_ok_def split: if_splits)
  qed
next
  assume a: "zero_ok p \<and> prng_Read e p b w = Inr (res, out, p', w')"
    and z: "UseZeroBuffer (config p) \<and> b \<noteq> []"
  from prng_Read_unfold [of b e p w res out p' w'] a z obtain r c p1 c1 where
    r: "cipher p = Some r" "heap w r = Some c" and
    g: "generate e p c b = Inr (out, p1, c1)" and
    t: "track_usage p1 (length b) (w\<lparr>heap := (heap w)(r \<mapsto> c1)\<rparr>) = (p', w')"
    by blast
  have lim: "cpos c + length b \<le> keystream_limit"
    using z g by (blast intro: generate_Inr_within)
  have gz: "generate e p c b =
           Inr (next_keystream e c (length b),
                p\<lparr>zero := (if cap (zero p) < length b then make_bytes (length b)
                            else reslice (zero p) (length b))\<rparr>,
                c\<lparr>cpos := cpos c + length b\<rparr>)"
    using a z lim by (simp add: generate_zero_mode)
  have zp: "zero p' = zero p1"
    using t by (auto simp: track_usage_def Let_def split: if_splits)
  show "zero p' = make_bytes (length b)
        \<or> length b \<le> cap (zero p) \<and> zero p' = reslice (zero p) (length b)"
    using g gz zp by (cases "cap (zero p) < length b") auto
  show "\<exists>r c. cipher p = Some r \<and> heap w r = Some c \<and> out = next_keystream e c (length b)"
    using r g gz by auto
qed

theorem zero_buffer_invariant_witness:
  "zero_ok PZ
   \<and> (case newPRNG E_ok (DefaultConfig 2) W0 of (Inr p0, w0) \<Rightarrow> zero_ok p0 | _ \<Rightarrow> False)
   \<and> (case prng_Read E_ok PZ [9, 9] W1 of
        Inr (res, out, p', w') \<Rightarrow> zero_ok p' \<and> out = [12, 13]
      | Inl pn \<Rightarrow> False)"
proof -
  have z: "zero_ok PZ" by (simp add: zero_ok_def PZ_def make_bytes_def)
  obtain p0 w0 where n: "newPRNG E_ok (DefaultConfig 2) W0 = (Inr p0, w0)"
    by (simp add: newPRNG_def newCipher_def ReadFull_def log_event_def E_ok_def W0_def
        KeySize_def NonceSizeX_def NewUnauthenticatedCipher_def Let_def)
  have ok: "prng_live PZ W1 (length [9, 9 :: byte])"
    by (simp add: prng_live_def PZ_def P1_def W1_def keystream_limit_def)
  from prng_Read_total [OF ok, of E_ok] obtain res out p' w' where
    rd: "prng_Read E_ok PZ [9, 9] W1 = Inr (res, out, p', w')"
    by blast
  have u: "UseZeroBuffer (config PZ) \<and> [9, 9 :: byte] \<noteq> []" by (simp add: PZ_def)
  have c: "cipher PZ = Some 0"
    "heap W1 0 = Some \<lparr>ckey = replicate 32 1, cnonce = replicate 24 2, cpos = 5\<rparr>"
    by (simp_all add: PZ_def P1_def W1_def)
  have k: "next_keystream E_ok \<lparr>ckey = replicate 32 1, cnonce = replicate 24 2, cpos = 5\<rparr>
             (length [9, 9 :: byte]) = [12, 13]"
    by (simp add: next_keystream_def E_ok_def upt_rec)
  from zero_buffer_invariant [of E_ok "DefaultConfig 2" W0 p0 w0 PZ "[9, 9]" W1 res out p' w']
    n z rd u c k
  have "zero_ok p0" "zero_ok p'" "out = [12, 13]"
    by auto
  then show ?thesis
    using z n rd by simp
qed

lemma prng_Read_bytes:
  assumes "b \<noteq> []" "cipher p = Some r" "heap w r = Some c"
    "generate e p c b = Inr (out, p1, c1)"
  shows "Read_bytes e p b w = Some out \<and> Read_heap e p b w = Some ((heap w)(r \<mapsto> c1))"
proof -
  obtain p2 w2 where t: "track_usage p1 (length b) (w\<lparr>heap := (heap w)(r \<mapsto> c1)\<rparr>) = (p2, w2)"
    by (cases "track_usage p1 (length b) (w\<lparr>heap := (heap w)(r \<mapsto> c1)\<rparr>)") auto
  have "prng_Read e p b w = Inr ((length b, None), out, p2, w2)"
    using assms t by (simp add: prng_Read_def Let_def)
  then show ?thesis
    using track_usage_frame [OF t] by (simp add: Read_bytes_def Read_heap_def)
qed

lemma xor_zero_input:
  assumes "\<forall>x \<in> set b. x = (0::byte)" "length ys = length b"
  shows "map2 (XOR) b ys = ys"
proof (rule nth_equalityI)
  show "length (map2 (XOR) b ys) = length ys" using assms(2) by simp
next
  fix i assume "i < length (map2 (XOR) b ys)"
  then have i: "i < length b" "i < length ys" by simp_all
  then have "b ! i = 0" using assms(1) by simp
  then show "map2 (XOR) b ys ! i = ys ! i" using i by simp
qed

text \<open>
  C2, as the claim states it, fails: on the same cipher object and the one-byte buffer
  \<open>[1]\<close> the zero-buffer read and the in-place read leave different bytes.
\<close>

theorem output_modes_differ_counterexample:
  "Read_bytes E_ok PZ [1] W1 \<noteq> Read_bytes E_ok P1 [1] W1"
  by (simp add: Read_bytes_def prng_Read_def generate_def track_usage_def XORKeyStream_def
      contents_def cap_def reslice_def make_bytes_def PZ_def P1_def W1_def E_ok_def
      DefaultConfig_def keystream_limit_def Let_def)

text \<open>
  C2, amended: on the same cipher state, with the bytes asked for still left in its
  keystream, the zero-buffer read leaves the next keystream bytes and the in-place read
  leaves the caller's bytes XORed with them, so the two modes give the same bytes on an
  all-zero buffer; and both advance the cipher by the length of the buffer.
\<close>

theorem output_modes_agree_on_zero_input:
  assumes "prng_live pz w (length b)" "zero_ok pz" "cipher pn = cipher pz"
    "UseZeroBuffer (config pz)" "\<not> UseZeroBuffer (config pn)"
  shows "\<exists>r c. cipher pz = Some r \<and> heap w r = Some c
           \<and> Read_bytes e pz b w = Some (next_keystream e c (length b))
           \<and> Read_bytes e pn b w = Some (map2 (XOR) b (next_keystream e c (length b)))
           \<and> ((\<forall>x \<in> set b. x = 0) \<longrightarrow> Read_bytes e pn b w = Read_bytes e pz b w)
           \<and> Read_heap e pz b w = Some ((heap w)(r \<mapsto> c\<lparr>cpos := cpos c + length b\<rparr>))
           \<and> Read_heap e pn b w = Some ((heap w)(r \<mapsto> c\<lparr>cpos := cpos c + length b\<rparr>))"
proof -
  from assms(1) obtain r c where r: "cipher pz = Some r" "heap w r = Some c"
    and lim: "cpos c + length b \<le> keystream_limit"
    by (auto simp: prng_live_def split: option.splits)
  have l: "length (next_keystream e c (length b)) = length b"
    by (simp add: next_keystream_def)
  show ?thesis
  proof (cases "b = []")
    case True
    have "(heap w)(r \<mapsto> c) = heap w" using r(2) by (simp add: fun_upd_idem)
    then show ?thesis
      using True r
      by (intro exI [of _ r] exI [of _ c])
         (simp add: Read_bytes_def Read_heap_def prng_Read_def next_keystream_def)
  next
    case False
    have rn: "cipher pn = Some r" using assms(3) r by simp
    have z: "Read_bytes e pz b w = Some (next_keystream e c (length b))"
      "Read_heap e pz b w = Some ((heap w)(r \<mapsto> c\<lparr>cpos := cpos c + length b\<rparr>))"
      using prng_Read_bytes [OF False r generate_zero_mode [OF assms(2) assms(4) lim, of e]]
      by simp_all
    have n: "Read_bytes e pn b w = Some (map2 (XOR) b (next_keystream e c (length b)))"
      "Read_heap e pn b w = Some ((heap w)(r \<mapsto> c\<lparr>cpos := cpos c + length b\<rparr>))"
      using prng_Read_bytes [OF False rn r(2) generate_in_place [OF assms(5) lim, of e]]
      by simp_all
    show ?thesis
      using r z n xor_zero_input [OF _ l]
      by (intro exI [of _ r] exI [of _ c]) simp
  qed
qed

theorem output_modes_agree_on_zero_input_witness:
  "prng_live PZ W1 2 \<and> zero_ok PZ \<and> cipher P1 = cipher PZ
   \<and> UseZeroBuffer (config PZ) \<and> \<not> UseZeroBuffer (config P1)
   \<and> set [0, 0 :: byte] = {0}
   \<and> Read_bytes E_ok PZ [0, 0] W1 = Some [12, 13]
   \<and> Read_bytes E_ok P1 [0, 0] W1 = Some [12, 13]
   \<and> Read_bytes E_ok P1 [1, 2] W1 = Some [13, 15]
   \<and> Read_heap E_ok PZ [0, 0] W1 = Read_heap E_ok P1 [0, 0] W1"
proof -
  have a: "prng_live PZ W1 2"
    by (simp add: prng_live_def PZ_def P1_def W1_def keystream_limit_def)
  have a0: "prng_live PZ W1 (length [0, 0 :: byte])" "prng_live PZ W1 (length [1, 2 :: byte])"
    using a by (simp_all add: numeral_2_eq_2)
  have b: "zero_ok PZ" by (simp add: zero_ok_def PZ_def make_bytes_def)
  have c: "cipher P1 = cipher PZ" by (simp add: PZ_def)
  have d: "UseZeroBuffer (config PZ)" by (simp add: PZ_def)
  have f: "\<not> UseZeroBuffer (config P1)" by (simp add: P1_def DefaultConfig_def)
  have h: "cipher PZ = Some 0"
    "heap W1 0 = Some \<lparr>ckey = replicate 32 1, cnonce = replicate 24 2, cpos = 5\<rparr>"
    by (simp_all add: PZ_def P1_def W1_def)
  have k: "next_keystream E_ok \<lparr>ckey = replicate 32 1, cnonce = replicate 24 2, cpos = 5\<rparr>
             (Suc (Suc 0)) = [12, 13]"
    by (simp add: next_keystream_def E_ok_def)
  from output_modes_agree_on_zero_input [OF a0(1) b c d f, of E_ok] h k
  have z: "Read_bytes E_ok PZ [0, 0] W1 = Some [12, 13]"
    "Read_bytes E_ok P1 [0, 0] W1 = Some [12, 13]"
    "Read_heap E_ok PZ [0, 0] W1 = Read_heap E_ok P1 [0, 0] W1"
    by auto
  from output_modes_agree_on_zero_input [OF a0(2) b c d f, of E_ok] h k
  have x: "Read_bytes E_ok P1 [1, 2] W1 = Some [13, 15]"
    by auto
  show ?thesis
    using a b c d f z x by simp
qed


section \<open>Usage accounting\<close>

text \<open>
  C4: a non-empty read with key rotation enabled adds its length to \<open>usage\<close>, modulo
  \<open>2^64\<close>; it starts a worker, setting \<open>rekeying\<close>, exactly when the new \<open>usage\<close> exceeds
  \<open>MaxBytesPerKey\<close> and \<open>rekeying\<close> was 0, and otherwise leaves \<open>rekeying\<close> and the log
  alone. With key rotation disabled, \<open>usage\<close>, \<open>rekeying\<close> and the log are untouched.
\<close>

theorem Read_usage_accounting:
  assumes "b \<noteq> []" "prng_Read e p b w = Inr (res, out, p', w')"
  shows "(EnableKeyRotation (config p) \<longrightarrow>
            usage p' = usage p + of_nat (length b)
            \<and> (if MaxBytesPerKey (config p) < usage p' \<and> rekeying p = 0
               then rekeying p' = 1 \<and> trace w' = trace w @ [WorkerSpawned]
               else rekeying p' = rekeying p \<and> trace w' = trace w))
         \<and> (\<not> EnableKeyRotation (config p) \<longrightarrow>
              usage p' = usage p \<and> rekeying p' = rekeying p \<and> trace w' = trace w)
         \<and> config p' = config p \<and> cipher p' = cipher p"
proof -
  from prng_Read_unfold [OF assms] obtain r c p1 c1 where
    g: "generate e p c b = Inr (out, p1, c1)" and
    t: "track_usage p1 (length b) (w\<lparr>heap := (heap w)(r \<mapsto> c1)\<rparr>) = (p', w')"
    by blast
  note f = generate_frame [OF g]
  show ?thesis
    using t f by (auto simp: track_usage_def Let_def log_event_def split: if_splits)
qed

theorem Read_usage_accounting_witness:
  "case prng_Read E_ok PR [0, 0, 0] W1 of
     Inr (res, out, p', w') \<Rightarrow>
       EnableKeyRotation (config PR) \<and> usage p' = 3 \<and> rekeying p' = 1
       \<and> trace w' = [WorkerSpawned]
   | Inl pn \<Rightarrow> False"
proof -
  have ok: "prng_live PR W1 (length [0, 0, 0 :: byte])"
    by (simp add: prng_live_def PR_def P1_def W1_def keystream_limit_def)
  from prng_Read_total [OF ok, of E_ok] obtain res out p' w' where
    rd: "prng_Read E_ok PR [0, 0, 0] W1 = Inr (res, out, p', w')"
    by blast
  have ne: "[0, 0, 0 :: byte] \<noteq> []" by simp
  have v: "EnableKeyRotation (config PR)" "MaxBytesPerKey (config PR) = 2" "usage PR = 0"
    "rekeying PR = 0" "trace W1 = []"
    by (simp_all add: PR_def P1_def W1_def)
  show ?thesis
    using Read_usage_accounting [OF ne rd] v by (simp add: rd)
qed


section \<open>The eager probe\<close>

lemma newCipher_trace: "trace (snd (newCipher e w)) = trace w @ [CipherFactoryCalled]"
  by (simp add: newCipher_def ReadFull_def log_event_def Let_def split: option.splits prod.splits)

lemma newCipher_Inl:
  "newCipher e w = (Inl err, w1) \<Longrightarrow> heap w1 = heap w \<and> next_ref w1 = next_ref w"
  by (auto simp: newCipher_def ReadFull_def log_event_def Let_def
      split: option.splits prod.splits if_splits)

lemma newCipher_Inr:
  "newCipher e w = (Inr r, w1) \<Longrightarrow>
     heap w1 r \<noteq> None \<and> (\<forall>q. heap w q \<noteq> None \<longrightarrow> heap w1 q \<noteq> None)"
  by (auto simp: newCipher_def ReadFull_def log_event_def Let_def
      split: option.splits prod.splits if_splits)

lemma newPRNG_Inl:
  "isl (fst (newCipher e w)) \<Longrightarrow>
     \<exists>err. newPRNG e cfg w = (Inl err, snd (newCipher e w))"
  by (cases "newCipher e w") (auto simp: newPRNG_def split: sum.splits)

lemma newPRNG_Inr:
  "\<not> isl (fst (newCipher e w)) \<Longrightarrow>
     \<exists>p. newPRNG e cfg w = (Inr p, snd (newCipher e w)) \<and> config p = cfg
         \<and> prng_ok p (snd (newCipher e w))"
  using newCipher_Inr [of e w]
  by (cases "newCipher e w") (auto simp: newPRNG_def prng_ok_def split: sum.splits)

lemma init_retry_all_fail:
  assumes "\<And>v. isl (fst (newCipher e v))"
  shows "\<exists>w'. init_retry e cfg r w = (None, w')
           \<and> trace w' = trace w @ replicate (nat (MaxInitRetries cfg - r)) CipherFactoryCalled"
  using assms
proof (induction e cfg r w rule: init_retry.induct)
  case (1 e cfg r w)
  note assms = "1.prems"
  show ?case
  proof (cases "r < MaxInitRetries cfg")
    case False
    then show ?thesis by (simp add: init_retry.simps)
  next
    case True
    have "isl (fst (newCipher e w))" by (rule assms)
    from newPRNG_Inl [OF this, of cfg] obtain err where
      n: "newPRNG e cfg w = (Inl err, snd (newCipher e w))" by blast
    from "1.IH" [OF True n [symmetric] refl assms] obtain w' where
      ih: "init_retry e cfg (r + 1) (snd (newCipher e w)) = (None, w')"
        "trace w' = trace (snd (newCipher e w))
           @ replicate (nat (MaxInitRetries cfg - (r + 1))) CipherFactoryCalled"
      by blast
    have "nat (MaxInitRetries cfg - r) = Suc (nat (MaxInitRetries cfg - (r + 1)))"
      using True by simp
    then show ?thesis
      using True n ih
      by (simp add: init_retry.simps [of e cfg r w] newCipher_trace replicate_app_Cons_same)
  qed
qed

lemma init_retry_first_success:
  assumes "\<not> isl (fst (newCipher e w))" "r < MaxInitRetries cfg"
  shows "\<exists>p. init_retry e cfg r w = (Some p, snd (newCipher e w)) \<and> config p = cfg
           \<and> prng_ok p (snd (newCipher e w))"
  using newPRNG_Inr [OF assms(1), of cfg] assms(2)
  by (auto simp: init_retry.simps [of e cfg r w])

lemma prng_ok_mono:
  "prng_ok p w \<Longrightarrow> \<forall>q. heap w q \<noteq> None \<longrightarrow> heap w' q \<noteq> None \<Longrightarrow> prng_ok p w'"
  unfolding prng_ok_def by (cases "cipher p") auto

lemma newCipher_heap_mono: "heap w q \<noteq> None \<Longrightarrow> heap (snd (newCipher e w)) q \<noteq> None"
  by (auto simp: newCipher_def ReadFull_def log_event_def Let_def
      split: option.splits prod.splits)

lemma NewReader_shards_all_succeed:
  assumes ok: "\<And>v. \<not> isl (fst (newCipher e v))" and pos: "0 < MaxInitRetries cfg"
  shows "\<exists>ps w'. NewReader_shards e cfg k w = Inr (Inr ps, w')
           \<and> length ps = k
           \<and> (\<forall>pl \<in> set ps. \<exists>p. idle pl = [p] \<and> prng_ok p w')
           \<and> trace w' = trace w @ replicate k CipherFactoryCalled
           \<and> (\<forall>q. heap w q \<noteq> None \<longrightarrow> heap w' q \<noteq> None)"
proof (induction k arbitrary: w)
  case 0
  show ?case by simp
next
  case (Suc k)
  define w1 where "w1 = snd (newCipher e w)"
  from init_retry_first_success [OF ok pos, of w] obtain p where
    p: "init_retry e cfg 0 w = (Some p, w1)" "prng_ok p w1"
    by (auto simp: w1_def)
  from Suc.IH [of w1] obtain ps w' where
    ih: "NewReader_shards e cfg k w1 = Inr (Inr ps, w')" "length ps = k"
      "\<forall>pl \<in> set ps. \<exists>p. idle pl = [p] \<and> prng_ok p w'"
      "trace w' = trace w1 @ replicate k CipherFactoryCalled"
      "\<forall>q. heap w1 q \<noteq> None \<longrightarrow> heap w' q \<noteq> None"
    by blast
  have res: "NewReader_shards e cfg (Suc k) w =
      Inr (Inr (pool_Put p \<lparr>idle = [], New = NewReader_New cfg\<rparr> # ps), w')"
    using p ih(1) by (simp add: pool_Get_def call_New_def Let_def)
  have pok: "prng_ok p w'"
    using p(2) ih(5) by (blast intro: prng_ok_mono)
  have tr: "trace w' = trace w @ replicate (Suc k) CipherFactoryCalled"
    using ih(4) by (simp add: w1_def newCipher_trace replicate_app_Cons_same)
  have mono: "\<forall>q. heap w q \<noteq> None \<longrightarrow> heap w' q \<noteq> None"
    using ih(5) newCipher_heap_mono [of w _ e] by (simp add: w1_def)
  show ?case
    using res ih(2) ih(3) pok tr mono by (auto simp: pool_Put_def)
qed

lemma NewReader_cfg:
  "NewReader e opts w =
     (let cfg = compose_Config (gomaxprocs e) opts
      in if Shards cfg < 0 then Inl NegativeLen
         else (case NewReader_shards e cfg (nat (Shards cfg)) w of
                 Inl pn \<Rightarrow> Inl pn
               | Inr (Inl err, w1) \<Rightarrow> Inr (Inl err, w1)
               | Inr (Inr ps, w1) \<Rightarrow> Inr (Inr \<lparr>rconfig = Some cfg, pools = ps\<rparr>, w1)))"
  by (simp add: NewReader_def compose_Config_def Let_def)

lemma compose_Config_Shards: "0 < procs \<Longrightarrow> 0 < Shards (compose_Config procs opts)"
  by (simp add: compose_Config_def Let_def)

text \<open>
  C5: with a cipher factory that fails on every call, \<open>NewReader\<close> returns the
  pool-initialization error, without a panic, after calling the factory \<open>MaxInitRetries\<close>
  times (no call when that is not positive), all for the first shard; with a factory that
  succeeds on every call, it calls the factory once per shard and returns a reader each of
  whose shards holds the one instance built.
\<close>

theorem NewReader_eager_probe:
  assumes "0 < gomaxprocs e"
  shows "((\<forall>v. isl (fst (newCipher e v))) \<longrightarrow>
            (\<exists>w'. NewReader e opts w =
                     Inr (Inl (PoolInitFailed (MaxInitRetries (compose_Config (gomaxprocs e) opts))), w')
                 \<and> trace w' = trace w @
                     replicate (nat (MaxInitRetries (compose_Config (gomaxprocs e) opts)))
                       CipherFactoryCalled))
         \<and> ((\<forall>v. \<not> isl (fst (newCipher e v)))
              \<and> 0 < MaxInitRetries (compose_Config (gomaxprocs e) opts) \<longrightarrow>
            (\<exists>r w'. NewReader e opts w = Inr (Inr r, w')
                 \<and> int (length (pools r)) = Shards (compose_Config (gomaxprocs e) opts)
                 \<and> (\<forall>pl \<in> set (pools r). length (idle pl) = 1)
                 \<and> trace w' = trace w @ replicate (length (pools r)) CipherFactoryCalled
                 \<and> reader_ok r w'))"
proof (intro conjI impI)
  define cfg where "cfg = compose_Config (gomaxprocs e) opts"
  have sh: "0 < Shards cfg" using assms by (simp add: cfg_def compose_Config_Shards)
  then obtain k where k: "nat (Shards cfg) = Suc k"
    by (cases "nat (Shards cfg)") auto
  {
    assume f: "\<forall>v. isl (fst (newCipher e v))"
    from init_retry_all_fail [of e cfg 0 w] f obtain w' where
      w': "init_retry e cfg 0 w = (None, w')"
        "trace w' = trace w @ replicate (nat (MaxInitRetries cfg)) CipherFactoryCalled"
      by auto
    have "NewReader_shards e cfg (Suc k) w = Inr (Inl (PoolInitFailed (MaxInitRetries cfg)), w')"
      using w'(1) by (simp add: pool_Get_def call_New_def Let_def)
    then have "NewReader e opts w = Inr (Inl (PoolInitFailed (MaxInitRetries cfg)), w')"
      using sh k by (simp add: NewReader_cfg cfg_def [symmetric] Let_def)
    then show "\<exists>w'. NewReader e opts w =
                     Inr (Inl (PoolInitFailed (MaxInitRetries (compose_Config (gomaxprocs e) opts))), w')
                 \<and> trace w' = trace w @
                     replicate (nat (MaxInitRetries (compose_Config (gomaxprocs e) opts)))
                       CipherFactoryCalled"
      using w'(2) by (auto simp: cfg_def)
  }
  {
    assume s: "(\<forall>v. \<not> isl (fst (newCipher e v)))
              \<and> 0 < MaxInitRetries (compose_Config (gomaxprocs e) opts)"
    from NewReader_shards_all_succeed [of e cfg "nat (Shards cfg)" w] s obtain ps w' where
      ps: "NewReader_shards e cfg (nat (Shards cfg)) w = Inr (Inr ps, w')"
        "length ps = nat (Shards cfg)"
        "\<forall>pl \<in> set ps. \<exists>p. idle pl = [p] \<and> prng_ok p w'"
        "trace w' = trace w @ replicate (nat (Shards cfg)) CipherFactoryCalled"
      by (auto simp: cfg_def)
    have nr: "NewReader e opts w = Inr (Inr \<lparr>rconfig = Some cfg, pools = ps\<rparr>, w')"
      using sh ps(1) by (simp add: NewReader_cfg cfg_def [symmetric] Let_def)
    have ne: "ps \<noteq> []" using ps(2) k by auto
    have rok: "reader_ok \<lparr>rconfig = Some cfg, pools = ps\<rparr> w'"
      using ne ps(3) by (fastforce simp: reader_ok_def)
    have one: "\<forall>pl \<in> set ps. length (idle pl) = 1"
      using ps(3) by fastforce
    show "\<exists>r w'. NewReader e opts w = Inr (Inr r, w')
                 \<and> int (length (pools r)) = Shards (compose_Config (gomaxprocs e) opts)
                 \<and> (\<forall>pl \<in> set (pools r). length (idle pl) = 1)
                 \<and> trace w' = trace w @ replicate (length (pools r)) CipherFactoryCalled
                 \<and> reader_ok r w'"
      using nr ps(2) ps(4) sh rok one by (auto simp: cfg_def)
  }
qed

theorem NewReader_eager_probe_witness:
  "0 < gomaxprocs E_fail \<and> 0 < gomaxprocs E_ok
   \<and> (\<exists>w'. NewReader E_fail [WithMaxInitRetries 4] W0 = Inr (Inl (PoolInitFailed 4), w')
         \<and> trace w' = replicate 4 CipherFactoryCalled)
   \<and> (\<exists>r w'. NewReader E_ok [WithShards 3] W0 = Inr (Inr r, w')
         \<and> length (pools r) = 3 \<and> trace w' = replicate 3 CipherFactoryCalled
         \<and> reader_ok r w')"
proof -
  have a: "0 < gomaxprocs E_fail" by (simp add: E_fail_def)
  have b: "0 < gomaxprocs E_ok" by (simp add: E_ok_def)
  have f: "\<forall>v. isl (fst (newCipher E_fail v))"
    by (simp add: newCipher_def ReadFull_def E_fail_def Let_def)
  have s: "\<forall>v. \<not> isl (fst (newCipher E_ok v))"
    by (simp add: newCipher_def ReadFull_def E_ok_def Let_def KeySize_def NonceSizeX_def
        NewUnauthenticatedCipher_def)
  have c1: "MaxInitRetries (compose_Config (gomaxprocs E_fail) [WithMaxInitRetries 4]) = 4"
    by (simp add: compose_Config_def DefaultConfig_def E_fail_def Let_def)
  have c2: "MaxInitRetries (compose_Config (gomaxprocs E_ok) [WithShards 3]) = 3"
    "Shards (compose_Config (gomaxprocs E_ok) [WithShards 3]) = 3"
    by (simp_all add: compose_Config_def DefaultConfig_def E_ok_def Let_def)
  have t: "trace W0 = []" by (simp add: W0_def)
  show ?thesis
    using a b NewReader_eager_probe [OF a, of "[WithMaxInitRetries 4]" W0]
      NewReader_eager_probe [OF b, of "[WithShards 3]" W0] f s
    by (auto simp: c1 c2 t)
qed


section \<open>The default reader\<close>

lemma init_rconfig: "init e w = Inr (r, w') \<Longrightarrow> rconfig r = None"
  by (auto simp: init_def Let_def split: if_splits sum.splits prod.splits)

text \<open>
  C7: the package-level reader that \<open>init\<close> builds has no configuration (its \<open>config\<close>
  pointer is \<open>nil\<close>), so its \<open>Config()\<close> panics on the dereference instead of returning a
  copy of the default configuration.
\<close>

theorem default_reader_Config_panics:
  "case init E_ok W0 of
     Inr (r, w') \<Rightarrow> reader_Config r = Inl NilDereference
   | Inl pn \<Rightarrow> False"
proof -
  obtain r w' where h: "init E_ok W0 = Inr (r, w')"
    by (simp add: init_def E_ok_def W0_def DefaultConfig_def numeral_2_eq_2 pool_Get_def
        call_New_def init_retry.simps newPRNG_def newCipher_def ReadFull_def log_event_def
        KeySize_def NonceSizeX_def NewUnauthenticatedCipher_def pool_Put_def Let_def)
  show ?thesis
    using init_rconfig [OF h] by (simp add: h reader_Config_def)
qed


section \<open>The rekey worker\<close>

lemma sint_double:
  fixes b :: Duration
  assumes "0 \<le> sint b" "sint b < 2 ^ 62"
  shows "sint (b * 2) = 2 * sint b"
proof -
  have "sint (b * 2) = signed_take_bit 63 (sint b * sint (2 :: Duration))"
    by (simp add: sint_word_mult)
  also have "sint (2 :: Duration) = 2" by simp
  also have "signed_take_bit 63 (sint b * 2) = sint b * 2"
    using assms by (intro signed_take_bit_int_eq_self) auto
  finally show ?thesis by simp
qed

lemma next_backoff_sint:
  assumes "0 \<le> sint b" "sint b < 2 ^ 62"
  shows "sint (next_backoff b m) = min (2 * sint b) (sint m)"
  using sint_double [OF assms]
  by (auto simp: next_backoff_def Let_def word_sless_alt)

lemma next_backoff_sane:
  assumes "sane_backoff b" "sane_backoff m"
  shows "sane_backoff (next_backoff b m)"
  using assms next_backoff_sint [of b m]
  by (auto simp: sane_backoff_def min_def)

lemma backoff_at_sane:
  assumes "sane_backoff (RekeyBackoff cfg)" "sane_backoff (maxBackoff_of cfg)"
  shows "sane_backoff (backoff_at cfg i)"
  using assms by (induction i) (simp_all add: next_backoff_sane)

lemma backoff_at_closed:
  assumes "sane_backoff (RekeyBackoff cfg)" "sane_backoff (maxBackoff_of cfg)"
    "RekeyBackoff cfg \<le>s maxBackoff_of cfg"
  shows "sint (backoff_at cfg i) = min (sint (RekeyBackoff cfg) * 2 ^ i) (sint (maxBackoff_of cfg))"
proof (induction i)
  case 0
  then show ?case using assms(3) by (simp add: word_sle_eq)
next
  case (Suc i)
  have s: "sane_backoff (backoff_at cfg i)" using assms by (simp add: backoff_at_sane)
  have "sint (backoff_at cfg (Suc i)) = min (2 * sint (backoff_at cfg i)) (sint (maxBackoff_of cfg))"
    using s by (simp add: next_backoff_sint sane_backoff_def)
  then show ?case
    using Suc assms(2) by (auto simp: min_def sane_backoff_def)
qed

lemma rekey_loop_done:
  "\<not> i < MaxRekeyAttempts (config p) \<Longrightarrow> rekey_loop e p m i base w = (Returned, p, w)"
  by (simp add: rekey_loop.simps [of e p m i base w])

lemma rekey_loop_nil:
  "i < MaxRekeyAttempts (config p) \<Longrightarrow> cipher p = None \<Longrightarrow>
     rekey_loop e p m i base w = (Panicked NilInterface, p, w)"
  by (simp add: rekey_loop.simps [of e p m i base w])

lemma rekey_loop_success:
  "i < MaxRekeyAttempts (config p) \<Longrightarrow> cipher p = Some old \<Longrightarrow>
   newCipher e w = (Inr stream, w1) \<Longrightarrow>
     rekey_loop e p m i base w =
       (Returned, p\<lparr>cipher := Some stream, usage := 0\<rparr>,
        w1\<lparr>heap := (heap w1)(old \<mapsto> zero_Cipher),
           trace := trace w1 @ [CipherStored stream, UsageStored 0, CipherWiped old]\<rparr>)"
  by (simp add: rekey_loop.simps [of e p m i base w] Let_def log_event_def)

lemma rekey_loop_stop:
  "i < MaxRekeyAttempts (config p) \<Longrightarrow> cipher p = Some old \<Longrightarrow>
   newCipher e w = (Inl err, w1) \<Longrightarrow> backoff_sleep e base w1 = (ex, w2) \<Longrightarrow>
   ex \<noteq> Returned \<Longrightarrow>
     rekey_loop e p m i base w = (ex, p, w2)"
  by (cases ex) (simp_all add: rekey_loop.simps [of e p m i base w])

lemma rekey_loop_retry:
  "i < MaxRekeyAttempts (config p) \<Longrightarrow> cipher p = Some old \<Longrightarrow>
   newCipher e w = (Inl err, w1) \<Longrightarrow> backoff_sleep e base w1 = (Returned, w2) \<Longrightarrow>
     rekey_loop e p m i base w = rekey_loop e p m (i + 1) (next_backoff base m) w2"
  by (simp add: rekey_loop.simps [of e p m i base w])

lemma newCipher_result_trace:
  "newCipher e w = (x, w1) \<Longrightarrow> trace w1 = trace w @ [CipherFactoryCalled]"
  using newCipher_trace [of e w] by simp

lemma backoff_sleep_died:
  assumes "jitter_draw e (rand_calls w) = None"
  shows "backoff_sleep e base w = (Died, w\<lparr>rand_calls := Suc (rand_calls w)\<rparr>)"
  using assms
  by (auto simp: backoff_sleep_def rand_Read_def ReadFull_def jitter_draw_def Let_def
      split: option.splits if_splits)

lemma backoff_sleep_zero:
  assumes "jitter_draw e (rand_calls w) = Some bs"
  shows "backoff_sleep e 0 w = (Panicked DivideByZero, w\<lparr>rand_calls := Suc (rand_calls w)\<rparr>)"
  using assms
  by (auto simp: backoff_sleep_def rand_Read_def ReadFull_def jitter_draw_def Let_def
      split: option.splits if_splits)

lemma backoff_sleep_nonzero:
  assumes "jitter_draw e (rand_calls w) = Some bs" "base \<noteq> 0"
  shows "backoff_sleep e base w =
           (Returned, w\<lparr>rand_calls := Suc (rand_calls w),
                        trace := trace w @ [Slept (base + BigEndian_Uint64 bs mod base)]\<rparr>)"
  using assms
  by (auto simp: backoff_sleep_def rand_Read_def ReadFull_def jitter_draw_def log_event_def
      Let_def split: option.splits if_splits)

lemma backoff_sleep_cases:
  assumes "backoff_sleep e base w1 = (ex, w2)"
  shows "heap w2 = heap w1
     \<and> (ex = Died \<and> jitter_draw e (rand_calls w1) = None \<and> trace w2 = trace w1
        \<or> ex = Panicked DivideByZero \<and> base = 0 \<and> jitter_draw e (rand_calls w1) \<noteq> None
            \<and> trace w2 = trace w1
        \<or> ex = Returned \<and> base \<noteq> 0
            \<and> (\<exists>bs. jitter_draw e (rand_calls w1) = Some bs
                  \<and> trace w2 = trace w1 @ [Slept (base + BigEndian_Uint64 bs mod base)]))"
proof (cases "jitter_draw e (rand_calls w1)")
  case None
  then show ?thesis using assms backoff_sleep_died [OF None, of base] by auto
next
  case (Some bs)
  show ?thesis
  proof (cases "base = 0")
    case True
    then show ?thesis using assms Some backoff_sleep_zero [OF Some] by auto
  next
    case False
    then show ?thesis using assms Some backoff_sleep_nonzero [OF Some False] by auto
  qed
qed

lemma rekey_loop_shape:
  assumes "n = nat (MaxRekeyAttempts (config p) - i)"
    "rekey_loop e p m i base w = (ex, p', w')"
  shows "\<exists>evs. list_all is_attempt_event evs \<and> factory_calls evs \<le> n
           \<and> (trace w' = trace w @ evs \<and> p' = p \<and> heap w' = heap w
              \<or> (\<exists>old new. ex = Returned \<and> cipher p = Some old
                    \<and> p' = p\<lparr>cipher := Some new, usage := 0\<rparr>
                    \<and> trace w' = trace w @ evs @ [CipherStored new, UsageStored 0, CipherWiped old]
                    \<and> heap w' old = Some zero_Cipher))"
  using assms
proof (induction n arbitrary: i base w)
  case 0
  then have "\<not> i < MaxRekeyAttempts (config p)" by simp
  from rekey_loop_done [OF this, of e m base w] "0.prems"(2)
  have "trace w' = trace w @ [] \<and> p' = p \<and> heap w' = heap w" by simp
  then show ?case
    by (intro exI [of _ "[]"]) (simp add: factory_calls_def)
next
  case (Suc n)
  then have lt: "i < MaxRekeyAttempts (config p)" by simp
  have n': "n = nat (MaxRekeyAttempts (config p) - (i + 1))" using Suc.prems(1) by simp
  show ?case
  proof (cases "cipher p")
    case None
    from rekey_loop_nil [OF lt None, of e m base w] Suc.prems(2)
    have "trace w' = trace w @ [] \<and> p' = p \<and> heap w' = heap w" by simp
    then show ?thesis
      by (intro exI [of _ "[]"]) (simp add: factory_calls_def)
  next
    case (Some old)
    obtain x w1 where nc: "newCipher e w = (x, w1)" by (cases "newCipher e w") auto
    note t1 = newCipher_result_trace [OF nc]
    show ?thesis
    proof (cases x)
      case (Inr stream)
      from rekey_loop_success [OF lt Some nc [unfolded Inr], of m base] Suc.prems(2)
      have r: "ex = Returned" "p' = p\<lparr>cipher := Some stream, usage := 0\<rparr>"
        "trace w' = trace w1 @ [CipherStored stream, UsageStored 0, CipherWiped old]"
        "heap w' old = Some zero_Cipher"
        by auto
      show ?thesis
        using Some r t1
        by (intro exI [of _ "[CipherFactoryCalled]"]) (simp add: factory_calls_def)
    next
      case (Inl err)
      note nc' = nc [unfolded Inl]
      note h1 = newCipher_Inl [OF nc']
      obtain y w2 where bs: "backoff_sleep e base w1 = (y, w2)"
        by (cases "backoff_sleep e base w1") auto
      note sl = backoff_sleep_cases [OF bs]
      show ?thesis
      proof (cases "y = Returned")
        case False
        from rekey_loop_stop [OF lt \<open>cipher p = Some old\<close> nc' bs False, of m] Suc.prems(2)
        have r: "p' = p" "w' = w2" by auto
        from sl False have "heap w2 = heap w1" "trace w2 = trace w1" by auto
        then show ?thesis
          using r t1 h1
          by (intro exI [of _ "[CipherFactoryCalled]"]) (simp add: factory_calls_def)
      next
        case True
        from rekey_loop_retry [OF lt \<open>cipher p = Some old\<close> nc' bs [unfolded True], of m]
          Suc.prems(2)
        have rec: "rekey_loop e p m (i + 1) (next_backoff base m) w2 = (ex, p', w')" by simp
        from sl True obtain d where
          s: "heap w2 = heap w1" "trace w2 = trace w1 @ [Slept d]" by auto
        from Suc.IH [OF n' rec] obtain evs where
          evs: "list_all is_attempt_event evs" "factory_calls evs \<le> n"
            "trace w' = trace w2 @ evs \<and> p' = p \<and> heap w' = heap w2
              \<or> (\<exists>old new. ex = Returned \<and> cipher p = Some old
                    \<and> p' = p\<lparr>cipher := Some new, usage := 0\<rparr>
                    \<and> trace w' = trace w2 @ evs @ [CipherStored new, UsageStored 0, CipherWiped old]
                    \<and> heap w' old = Some zero_Cipher)"
          by blast
        show ?thesis
          using evs s t1 h1
          by (intro exI [of _ "CipherFactoryCalled # Slept d # evs"])
             (auto simp: factory_calls_def)
      qed
    qed
  qed
qed

lemma asyncRekey_unfold:
  "asyncRekey e p w =
     (case rekey_loop e p (maxBackoff_of (config p)) 0 (RekeyBackoff (config p)) w of
        (ex, p', w') \<Rightarrow>
          if ex = Died then (Died, p', w')
          else (ex, p'\<lparr>rekeying := 0\<rparr>, w'\<lparr>trace := trace w' @ [RekeyingStored 0]\<rparr>))"
  by (simp add: asyncRekey_def maxBackoff_of_def Let_def log_event_def split: prod.splits)

text \<open>
  C3: every run of the worker that ends with the process alive, also one that panics, ends
  by storing 0 in \<open>rekeying\<close>. Before that it has only called the factory and slept, unless
  an attempt succeeded: then it stored the new cipher, stored \<open>usage = 0\<close>, zeroed the old
  cipher object, and cleared the flag, in this order and as its last four actions. When
  the first attempt succeeds the run is exactly that.
\<close>

theorem asyncRekey_order:
  assumes "asyncRekey e p w = (ex, p', w')" "ex \<noteq> Died"
  shows "rekeying p' = 0
    \<and> (\<exists>evs. list_all is_attempt_event evs
          \<and> (trace w' = trace w @ evs @ [RekeyingStored 0]
               \<and> cipher p' = cipher p \<and> heap w' = heap w
             \<or> (\<exists>old new. ex = Returned \<and> cipher p = Some old \<and> cipher p' = Some new
                   \<and> usage p' = 0
                   \<and> trace w' = trace w @ evs
                        @ [CipherStored new, UsageStored 0, CipherWiped old, RekeyingStored 0]
                   \<and> heap w' old = Some zero_Cipher)))
    \<and> (\<forall>old new w1.
          0 < MaxRekeyAttempts (config p) \<and> cipher p = Some old
            \<and> newCipher e w = (Inr new, w1) \<longrightarrow>
          ex = Returned \<and> p' = p\<lparr>cipher := Some new, usage := 0, rekeying := 0\<rparr>
            \<and> trace w' = trace w @ [CipherFactoryCalled, CipherStored new, UsageStored 0,
                                     CipherWiped old, RekeyingStored 0]
            \<and> heap w' = (heap w1)(old \<mapsto> zero_Cipher))"
proof -
  obtain ex0 p0 w0 where
    l: "rekey_loop e p (maxBackoff_of (config p)) 0 (RekeyBackoff (config p)) w = (ex0, p0, w0)"
    by (cases "rekey_loop e p (maxBackoff_of (config p)) 0 (RekeyBackoff (config p)) w") auto
  have r: "ex = ex0" "p' = p0\<lparr>rekeying := 0\<rparr>" "w' = w0\<lparr>trace := trace w0 @ [RekeyingStored 0]\<rparr>"
    using assms l by (auto simp: asyncRekey_unfold split: if_splits)
  have a: "rekeying p' = 0" using r by simp
  from rekey_loop_shape [OF refl l] obtain evs where
    evs: "list_all is_attempt_event evs"
      "trace w0 = trace w @ evs \<and> p0 = p \<and> heap w0 = heap w
        \<or> (\<exists>old new. ex0 = Returned \<and> cipher p = Some old
              \<and> p0 = p\<lparr>cipher := Some new, usage := 0\<rparr>
              \<and> trace w0 = trace w @ evs @ [CipherStored new, UsageStored 0, CipherWiped old]
              \<and> heap w0 old = Some zero_Cipher)"
    by blast
  have b: "\<exists>evs. list_all is_attempt_event evs
          \<and> (trace w' = trace w @ evs @ [RekeyingStored 0]
               \<and> cipher p' = cipher p \<and> heap w' = heap w
             \<or> (\<exists>old new. ex = Returned \<and> cipher p = Some old \<and> cipher p' = Some new
                   \<and> usage p' = 0
                   \<and> trace w' = trace w @ evs
                        @ [CipherStored new, UsageStored 0, CipherWiped old, RekeyingStored 0]
                   \<and> heap w' old = Some zero_Cipher))"
    using evs r by (intro exI [of _ evs]) auto
  have c: "\<forall>old new w1.
          0 < MaxRekeyAttempts (config p) \<and> cipher p = Some old
            \<and> newCipher e w = (Inr new, w1) \<longrightarrow>
          ex = Returned \<and> p' = p\<lparr>cipher := Some new, usage := 0, rekeying := 0\<rparr>
            \<and> trace w' = trace w @ [CipherFactoryCalled, CipherStored new, UsageStored 0,
                                     CipherWiped old, RekeyingStored 0]
            \<and> heap w' = (heap w1)(old \<mapsto> zero_Cipher)"
  proof (intro allI impI)
    fix old new w1
    assume h: "0 < MaxRekeyAttempts (config p) \<and> cipher p = Some old
            \<and> newCipher e w = (Inr new, w1)"
    then have lt: "0 < MaxRekeyAttempts (config p)" and co: "cipher p = Some old"
      and nc: "newCipher e w = (Inr new, w1)" by simp_all
    from rekey_loop_success [OF lt co nc, of "maxBackoff_of (config p)" "RekeyBackoff (config p)"] l
    have "ex0 = Returned" "p0 = p\<lparr>cipher := Some new, usage := 0\<rparr>"
      "w0 = w1\<lparr>heap := (heap w1)(old \<mapsto> zero_Cipher),
           trace := trace w1 @ [CipherStored new, UsageStored 0, CipherWiped old]\<rparr>"
      by simp_all
    then show "ex = Returned \<and> p' = p\<lparr>cipher := Some new, usage := 0, rekeying := 0\<rparr>
            \<and> trace w' = trace w @ [CipherFactoryCalled, CipherStored new, UsageStored 0,
                                     CipherWiped old, RekeyingStored 0]
            \<and> heap w' = (heap w1)(old \<mapsto> zero_Cipher)"
      using r newCipher_result_trace [OF nc] by simp
  qed
  show ?thesis using a b c by blast
qed

theorem asyncRekey_order_witness:
  "case asyncRekey E_ok PR W1 of
     (ex, p', w') \<Rightarrow>
       ex = Returned \<and> rekeying p' = 0 \<and> cipher p' = Some 1 \<and> usage p' = 0
       \<and> trace w' = [CipherFactoryCalled, CipherStored 1, UsageStored 0, CipherWiped 0,
                      RekeyingStored 0]
       \<and> heap w' 0 = Some zero_Cipher"
proof -
  obtain w1 where nc: "newCipher E_ok W1 = (Inr 1, w1)"
    by (simp add: newCipher_def ReadFull_def log_event_def E_ok_def W1_def KeySize_def
        NonceSizeX_def NewUnauthenticatedCipher_def Let_def)
  have v: "0 < MaxRekeyAttempts (config PR)" "cipher PR = Some 0" "trace W1 = []"
    by (simp_all add: PR_def P1_def W1_def DefaultConfig_def maxRekeyAttempts_def)
  obtain ex p' w' where h: "asyncRekey E_ok PR W1 = (ex, p', w')"
    by (cases "asyncRekey E_ok PR W1") auto
  have "fst (asyncRekey E_ok PR W1) = Returned"
    using rekey_loop_success [OF v(1) v(2) nc, of "maxBackoff_of (config PR)"
        "RekeyBackoff (config PR)"]
    by (simp add: asyncRekey_unfold)
  then have nd: "ex \<noteq> Died" using h by simp
  from asyncRekey_order [OF h nd] v nc
  have "rekeying p' = 0" "ex = Returned"
    "p' = PR\<lparr>cipher := Some 1, usage := 0, rekeying := 0\<rparr>"
    "trace w' = trace W1 @ [CipherFactoryCalled, CipherStored 1, UsageStored 0,
                             CipherWiped 0, RekeyingStored 0]"
    "heap w' = (heap w1)(0 \<mapsto> zero_Cipher)"
    by blast+
  then show ?thesis using v by (simp add: h)
qed

section \<open>Backoff schedule and the zero backoff\<close>

lemma newCipher_key_fails:
  assumes "entropy e (rand_calls w) KeySize = None"
  shows "newCipher e w =
           (Inl KeyReadFailed,
            w\<lparr>rand_calls := Suc (rand_calls w), trace := trace w @ [CipherFactoryCalled]\<rparr>)"
  using assms by (simp add: newCipher_def ReadFull_def log_event_def Let_def)

lemma upt_Suc_shift: "[0..<Suc n] = 0 # map Suc [0..<n]"
  by (simp add: upt_conv_Cons map_Suc_upt del: upt_Suc)

lemma sane_backoff_nonzero: "sane_backoff d \<Longrightarrow> d \<noteq> 0"
  by (auto simp: sane_backoff_def)

lemma asyncRekey_fst:
  "fst (asyncRekey e p w)
     = fst (rekey_loop e p (maxBackoff_of (config p)) 0 (RekeyBackoff (config p)) w)"
  by (simp add: asyncRekey_unfold split: prod.splits)

lemma backoff_at_steps:
  assumes "sane_backoff (RekeyBackoff cfg)" "sane_backoff (maxBackoff_of cfg)"
  shows "(\<forall>t. backoff_at cfg (Suc t) = next_backoff (backoff_at cfg t) (maxBackoff_of cfg))
         \<and> (\<forall>t. backoff_at cfg t \<noteq> 0)"
  using assms by (simp add: backoff_at_sane sane_backoff_nonzero)

lemma rekey_loop_run:
  assumes B: "\<forall>t. B (Suc t) = next_backoff (B t) m"
    and n: "n = nat (MaxRekeyAttempts (config p) - i)"
    and r: "rekey_loop e p m i (B j) w = (ex, p', w')"
  shows "\<exists>k rnds rest.
      trace w' = trace w @ concat (map (\<lambda>t.
          [CipherFactoryCalled, Slept (B (j + t) + rnds t mod B (j + t))]) [0..<k]) @ rest
      \<and> k \<le> n
      \<and> (\<forall>t<k. B (j + t) \<noteq> 0
             \<and> (\<exists>q bs. jitter_draw e q = Some bs \<and> rnds t = BigEndian_Uint64 bs))
      \<and> (rest = [] \<and> ex = Returned \<and> k = n \<and> p' = p \<and> heap w' = heap w
         \<or> rest = [] \<and> ex = Panicked NilInterface \<and> cipher p = None \<and> p' = p
             \<and> heap w' = heap w
         \<or> rest = [CipherFactoryCalled] \<and> ex = Died \<and> k < n \<and> p' = p \<and> heap w' = heap w
         \<or> rest = [CipherFactoryCalled] \<and> ex = Panicked DivideByZero \<and> k < n
             \<and> B (j + k) = 0 \<and> p' = p \<and> heap w' = heap w
         \<or> (\<exists>old new. rest = [CipherFactoryCalled, CipherStored new, UsageStored 0,
                                 CipherWiped old]
               \<and> ex = Returned \<and> k < n \<and> cipher p = Some old
               \<and> p' = p\<lparr>cipher := Some new, usage := 0\<rparr>
               \<and> heap w' old = Some zero_Cipher))"
  using n r
proof (induction n arbitrary: i j w)
  case 0
  then have "\<not> i < MaxRekeyAttempts (config p)" by simp
  from rekey_loop_done [OF this, of e m "B j" w] "0.prems"(2)
  have "ex = Returned" "p' = p" "w' = w" by simp_all
  then show ?case
    by (intro exI [of _ 0] exI [of _ "\<lambda>t. 0"] exI [of _ "[]"]) simp
next
  case (Suc n)
  then have lt: "i < MaxRekeyAttempts (config p)" by simp
  have n': "n = nat (MaxRekeyAttempts (config p) - (i + 1))" using Suc.prems(1) by simp
  show ?case
  proof (cases "cipher p")
    case None
    from rekey_loop_nil [OF lt None, of e m "B j" w] Suc.prems(2)
    have "ex = Panicked NilInterface" "p' = p" "w' = w" by simp_all
    then show ?thesis
      using None by (intro exI [of _ 0] exI [of _ "\<lambda>t. 0"] exI [of _ "[]"]) simp
  next
    case (Some old)
    obtain x w1 where nc: "newCipher e w = (x, w1)" by (cases "newCipher e w") auto
    note t1 = newCipher_result_trace [OF nc]
    show ?thesis
    proof (cases x)
      case (Inr stream)
      from rekey_loop_success [OF lt Some nc [unfolded Inr], of m "B j"] Suc.prems(2)
      have s: "ex = Returned" "p' = p\<lparr>cipher := Some stream, usage := 0\<rparr>"
        "trace w' = trace w1 @ [CipherStored stream, UsageStored 0, CipherWiped old]"
        "heap w' old = Some zero_Cipher"
        by auto
      show ?thesis
        using Some s t1
        by (intro exI [of _ 0] exI [of _ "\<lambda>t. 0"]
            exI [of _ "[CipherFactoryCalled, CipherStored stream, UsageStored 0,
                        CipherWiped old]"]) simp
    next
      case (Inl err)
      note nc' = nc [unfolded Inl]
      note h1 = newCipher_Inl [OF nc']
      obtain y w2 where bs: "backoff_sleep e (B j) w1 = (y, w2)"
        by (cases "backoff_sleep e (B j) w1") auto
      note sl = backoff_sleep_cases [OF bs]
      show ?thesis
      proof (cases "y = Returned")
        case False
        from rekey_loop_stop [OF lt \<open>cipher p = Some old\<close> nc' bs False, of m] Suc.prems(2)
        have s: "ex = y" "p' = p" "w' = w2" by auto
        from sl False have f: "heap w2 = heap w1" "trace w2 = trace w1"
          "y = Died \<or> y = Panicked DivideByZero \<and> B j = 0" by auto
        show ?thesis
          using s t1 h1 f
          by (intro exI [of _ 0] exI [of _ "\<lambda>t. 0"] exI [of _ "[CipherFactoryCalled]"]) auto
      next
        case True
        from rekey_loop_retry [OF lt \<open>cipher p = Some old\<close> nc' bs [unfolded True], of m]
          Suc.prems(2) B
        have rec: "rekey_loop e p m (i + 1) (B (Suc j)) w2 = (ex, p', w')" by simp
        from sl True obtain bs0 where
          s: "heap w2 = heap w1" "B j \<noteq> 0" "jitter_draw e (rand_calls w1) = Some bs0"
            "trace w2 = trace w1 @ [Slept (B j + BigEndian_Uint64 bs0 mod B j)]"
          by auto
        from Suc.IH [OF n' rec] obtain k rnds rest where
          ih: "trace w' = trace w2 @ concat (map (\<lambda>t.
                 [CipherFactoryCalled, Slept (B (Suc j + t) + rnds t mod B (Suc j + t))])
                 [0..<k]) @ rest"
            "k \<le> n"
            "\<forall>t<k. B (Suc j + t) \<noteq> 0
                \<and> (\<exists>q bs. jitter_draw e q = Some bs \<and> rnds t = BigEndian_Uint64 bs)"
            "rest = [] \<and> ex = Returned \<and> k = n \<and> p' = p \<and> heap w' = heap w2
             \<or> rest = [] \<and> ex = Panicked NilInterface \<and> cipher p = None \<and> p' = p
                 \<and> heap w' = heap w2
             \<or> rest = [CipherFactoryCalled] \<and> ex = Died \<and> k < n \<and> p' = p
                 \<and> heap w' = heap w2
             \<or> rest = [CipherFactoryCalled] \<and> ex = Panicked DivideByZero \<and> k < n
                 \<and> B (Suc j + k) = 0 \<and> p' = p \<and> heap w' = heap w2
             \<or> (\<exists>old new. rest = [CipherFactoryCalled, CipherStored new, UsageStored 0,
                                     CipherWiped old]
                   \<and> ex = Returned \<and> k < n \<and> cipher p = Some old
                   \<and> p' = p\<lparr>cipher := Some new, usage := 0\<rparr>
                   \<and> heap w' old = Some zero_Cipher)"
          by blast
        define rnds' where "rnds' = case_nat (BigEndian_Uint64 bs0) rnds"
        have tr: "trace w' = trace w @ concat (map (\<lambda>t.
                 [CipherFactoryCalled, Slept (B (j + t) + rnds' t mod B (j + t))])
                 [0..<Suc k]) @ rest"
          using ih(1) s(4) t1
          by (simp add: rnds'_def upt_Suc_shift comp_def del: upt_Suc)
        have dr: "\<forall>t<Suc k. B (j + t) \<noteq> 0
                \<and> (\<exists>q bs. jitter_draw e q = Some bs \<and> rnds' t = BigEndian_Uint64 bs)"
        proof (intro allI impI)
          fix t assume t: "t < Suc k"
          show "B (j + t) \<noteq> 0
                \<and> (\<exists>q bs. jitter_draw e q = Some bs \<and> rnds' t = BigEndian_Uint64 bs)"
          proof (cases t)
            case 0
            then show ?thesis using s(2, 3) by (auto simp: rnds'_def)
          next
            case (Suc t')
            then have "t' < k" using t by simp
            then show ?thesis using ih(3) Suc by (auto simp: rnds'_def)
          qed
        qed
        have hp: "heap w2 = heap w" using s(1) h1 by simp
        have tl: "rest = [] \<and> ex = Returned \<and> Suc k = Suc n \<and> p' = p \<and> heap w' = heap w
             \<or> rest = [] \<and> ex = Panicked NilInterface \<and> cipher p = None \<and> p' = p
                 \<and> heap w' = heap w
             \<or> rest = [CipherFactoryCalled] \<and> ex = Died \<and> Suc k < Suc n \<and> p' = p
                 \<and> heap w' = heap w
             \<or> rest = [CipherFactoryCalled] \<and> ex = Panicked DivideByZero \<and> Suc k < Suc n
                 \<and> B (j + Suc k) = 0 \<and> p' = p \<and> heap w' = heap w
             \<or> (\<exists>old new. rest = [CipherFactoryCalled, CipherStored new, UsageStored 0,
                                     CipherWiped old]
                   \<and> ex = Returned \<and> Suc k < Suc n \<and> cipher p = Some old
                   \<and> p' = p\<lparr>cipher := Some new, usage := 0\<rparr>
                   \<and> heap w' old = Some zero_Cipher)"
          using ih(4) unfolding hp by simp
        have kn: "Suc k \<le> Suc n" using ih(2) by simp
        show ?thesis
          using tr kn dr tl
          by (intro exI [of _ "Suc k"] exI [of _ rnds'] exI [of _ rest]) blast
      qed
    qed
  qed
qed

lemma rekey_loop_all_fail:
  assumes kf: "\<forall>k. entropy e k KeySize = None" and jd: "\<forall>k. jitter_draw e k = Some (draw k)"
    and c: "cipher p = Some old"
    and B: "\<forall>t. B (Suc t) = next_backoff (B t) m" "\<forall>t. B t \<noteq> 0"
    and n: "n = nat (MaxRekeyAttempts (config p) - i)"
  shows "rekey_loop e p m i (B j) w =
           (Returned, p,
            w\<lparr>rand_calls := rand_calls w + 2 * n,
              trace := trace w @ concat (map (\<lambda>t.
                [CipherFactoryCalled,
                 Slept (B (j + t)
                          + BigEndian_Uint64 (draw (rand_calls w + 2 * t + 1)) mod B (j + t))])
                [0..<n])\<rparr>)"
  using n
proof (induction n arbitrary: i j w)
  case 0
  then have "\<not> i < MaxRekeyAttempts (config p)" by simp
  then show ?case by (simp add: rekey_loop_done)
next
  case (Suc n)
  then have lt: "i < MaxRekeyAttempts (config p)" by simp
  have n': "n = nat (MaxRekeyAttempts (config p) - (i + 1))" using Suc.prems by simp
  define w1 where
    "w1 = w\<lparr>rand_calls := Suc (rand_calls w), trace := trace w @ [CipherFactoryCalled]\<rparr>"
  define w2 where
    "w2 = w1\<lparr>rand_calls := Suc (rand_calls w1),
             trace := trace w1
               @ [Slept (B j + BigEndian_Uint64 (draw (rand_calls w1)) mod B j)]\<rparr>"
  have nc: "newCipher e w = (Inl KeyReadFailed, w1)"
    using kf by (simp add: newCipher_key_fails w1_def)
  have j1: "jitter_draw e (rand_calls w1) = Some (draw (rand_calls w1))" using jd by simp
  have nz: "B j \<noteq> 0" using B(2) by simp
  have bs: "backoff_sleep e (B j) w1 = (Returned, w2)"
    using backoff_sleep_nonzero [OF j1 nz] by (simp add: w2_def)
  have "rekey_loop e p m i (B j) w = rekey_loop e p m (i + 1) (B (Suc j)) w2"
    using rekey_loop_retry [OF lt c nc bs, of m] B(1) by simp
  also have "\<dots> = (Returned, p,
            w2\<lparr>rand_calls := rand_calls w2 + 2 * n,
               trace := trace w2 @ concat (map (\<lambda>t.
                [CipherFactoryCalled,
                 Slept (B (Suc j + t)
                          + BigEndian_Uint64 (draw (rand_calls w2 + 2 * t + 1)) mod B (Suc j + t))])
                [0..<n])\<rparr>)"
    by (rule Suc.IH [OF n'])
  also have "\<dots> = (Returned, p,
            w\<lparr>rand_calls := rand_calls w + 2 * Suc n,
              trace := trace w @ concat (map (\<lambda>t.
                [CipherFactoryCalled,
                 Slept (B (j + t)
                          + BigEndian_Uint64 (draw (rand_calls w + 2 * t + 1)) mod B (j + t))])
                [0..<Suc n])\<rparr>)"
    by (simp add: w2_def w1_def upt_Suc_shift comp_def del: upt_Suc)
  finally show ?case .
qed

lemma asyncRekey_factory_calls:
  "factory_calls (trace (snd (snd (asyncRekey e p w))))
     \<le> factory_calls (trace w) + nat (MaxRekeyAttempts (config p))"
proof -
  obtain ex0 p0 w0 where
    l: "rekey_loop e p (maxBackoff_of (config p)) 0 (RekeyBackoff (config p)) w = (ex0, p0, w0)"
    by (cases "rekey_loop e p (maxBackoff_of (config p)) 0 (RekeyBackoff (config p)) w") auto
  from rekey_loop_shape [OF refl l] obtain evs where
    evs: "factory_calls evs \<le> nat (MaxRekeyAttempts (config p) - 0)"
      "trace w0 = trace w @ evs
        \<or> (\<exists>old new. trace w0 = trace w @ evs @ [CipherStored new, UsageStored 0, CipherWiped old])"
    by blast
  have "factory_calls (trace w0) = factory_calls (trace w) + factory_calls evs"
    "factory_calls (trace w0 @ [RekeyingStored 0]) = factory_calls (trace w) + factory_calls evs"
    using evs(2) by (auto simp: factory_calls_def)
  then show ?thesis
    using evs(1) l by (simp add: asyncRekey_unfold)
qed

text \<open>
  C8, as the claim states it, fails: with an initial backoff of 3 s, the default maximum of
  2 s, key reads that fail and 8-byte draws that give \<open>rnd = 0x0101010101010101\<close>, the
  worker sleeps \<open>3 s + rnd mod 3 s = 5838076673 ns\<close> after its first failed attempt, where
  the claimed base \<open>min(rekey_backoff * 2^0, max_rekey_backoff)\<close> is 2 s and the claimed delay
  \<open>2 s + rnd mod 2 s = 2838076673 ns\<close>. And when the draw fails the process ends: the worker
  does not sleep for the base.
\<close>

theorem rekey_backoff_counterexample:
  "asyncRekey E_jit P3 W1
     = (Returned, P3\<lparr>rekeying := 0\<rparr>,
        W1\<lparr>rand_calls := 4,
           trace := [CipherFactoryCalled, Slept 5838076673, RekeyingStored 0]\<rparr>)
   \<and> BigEndian_Uint64 (replicate 8 1) = 72340172838076673
   \<and> claimed_backoff (config P3) 0 = 2000000000
   \<and> claimed_delay (config P3) 0 (BigEndian_Uint64 (replicate 8 1)) = 2838076673
   \<and> asyncRekey E_fail P3 W1
     = (Died, P3, W1\<lparr>rand_calls := 4, trace := [CipherFactoryCalled]\<rparr>)"
proof -
  have rnd: "BigEndian_Uint64 (replicate 8 1) = 72340172838076673"
    by (simp add: BigEndian_Uint64_def eval_nat_numeral)
  have a: "asyncRekey E_jit P3 W1
     = (Returned, P3\<lparr>rekeying := 0\<rparr>,
        W1\<lparr>rand_calls := 4,
           trace := [CipherFactoryCalled, Slept 5838076673, RekeyingStored 0]\<rparr>)"
    by (simp add: asyncRekey_def rekey_loop.simps newCipher_def backoff_sleep_def rand_Read_def
        ReadFull_def log_event_def E_jit_def P3_def P1_def W1_def DefaultConfig_def Let_def
        Second_def KeySize_def rnd)
  have b: "claimed_backoff (config P3) 0 = 2000000000"
    by (simp add: claimed_backoff_def P3_def DefaultConfig_def maxRekeyBackoff_def Second_def)
  have c: "claimed_delay (config P3) 0 (BigEndian_Uint64 (replicate 8 1)) = 2838076673"
    by (simp add: claimed_delay_def b rnd)
  have d: "asyncRekey E_fail P3 W1
     = (Died, P3, W1\<lparr>rand_calls := 4, trace := [CipherFactoryCalled]\<rparr>)"
    by (simp add: asyncRekey_def rekey_loop.simps newCipher_def backoff_sleep_def rand_Read_def
        ReadFull_def log_event_def E_fail_def P3_def P1_def W1_def DefaultConfig_def Let_def
        Second_def)
  show ?thesis using rnd a b c d by simp
qed

text \<open>
  C8, amended: the backoff starts at \<open>RekeyBackoff\<close>, unclamped, and after each failed
  attempt is doubled on \<open>int64\<close> and replaced by the maximum (\<open>MaxRekeyBackoff\<close>, or 2 s when
  that is 0) when it exceeds it; so it is \<open>min(RekeyBackoff * 2^i, maximum)\<close> after \<open>i\<close>
  failures when \<open>0 < RekeyBackoff \<le> maximum < 2^62\<close> ns. Every run of the worker is \<open>k\<close>
  failed attempts, \<open>k \<le> MaxRekeyAttempts\<close>, the \<open>i\<close>-th followed by a sleep of
  \<open>base + (rnd mod base)\<close> on 64 bits, with \<open>base\<close> the backoff after \<open>i\<close> failures, not zero,
  and \<open>rnd\<close> an 8-byte draw of the entropy source read big-endian; and then one of: the
  attempts are exhausted (\<open>k = MaxRekeyAttempts\<close>) and the instance's cipher and the cipher
  objects are as they were; the instance has no cipher; an attempt fails and its draw fails,
  which ends the process with no sleep; an attempt fails with a zero backoff and a draw that
  succeeds, a division by zero; an attempt succeeds. There is no sleep of exactly \<open>base\<close>.
  The worker calls the factory at most \<open>MaxRekeyAttempts\<close> times. When the key reads fail,
  the draws succeed and both durations are positive and below \<open>2^62\<close> ns, the run is the
  \<open>MaxRekeyAttempts\<close> failed attempts, and the draws are the reads of odd rank.
\<close>

theorem rekey_backoff_schedule:
  assumes "asyncRekey e p w = (ex, p', w')"
  shows "(\<exists>k rnds rest.
        trace w' = trace w @ concat (map (\<lambda>i.
            [CipherFactoryCalled,
             Slept (backoff_at (config p) i + rnds i mod backoff_at (config p) i)]) [0..<k])
          @ rest
        \<and> k \<le> nat (MaxRekeyAttempts (config p))
        \<and> (\<forall>i<k. backoff_at (config p) i \<noteq> 0
               \<and> (\<exists>q bs. jitter_draw e q = Some bs \<and> rnds i = BigEndian_Uint64 bs))
        \<and> (rest = [RekeyingStored 0] \<and> ex = Returned \<and> k = nat (MaxRekeyAttempts (config p))
              \<and> p' = p\<lparr>rekeying := 0\<rparr> \<and> heap w' = heap w
           \<or> rest = [RekeyingStored 0] \<and> ex = Panicked NilInterface \<and> cipher p = None
               \<and> p' = p\<lparr>rekeying := 0\<rparr> \<and> heap w' = heap w
           \<or> rest = [CipherFactoryCalled] \<and> ex = Died
               \<and> k < nat (MaxRekeyAttempts (config p)) \<and> p' = p \<and> heap w' = heap w
           \<or> rest = [CipherFactoryCalled, RekeyingStored 0] \<and> ex = Panicked DivideByZero
               \<and> k < nat (MaxRekeyAttempts (config p)) \<and> backoff_at (config p) k = 0
               \<and> p' = p\<lparr>rekeying := 0\<rparr> \<and> heap w' = heap w
           \<or> (\<exists>old new. rest = [CipherFactoryCalled, CipherStored new, UsageStored 0,
                                   CipherWiped old, RekeyingStored 0]
                 \<and> ex = Returned \<and> k < nat (MaxRekeyAttempts (config p))
                 \<and> cipher p = Some old
                 \<and> p' = p\<lparr>cipher := Some new, usage := 0, rekeying := 0\<rparr>
                 \<and> heap w' old = Some zero_Cipher)))
   \<and> factory_calls (trace w') \<le> factory_calls (trace w) + nat (MaxRekeyAttempts (config p))
   \<and> (sane_backoff (RekeyBackoff (config p)) \<and> sane_backoff (maxBackoff_of (config p))
        \<and> RekeyBackoff (config p) \<le>s maxBackoff_of (config p) \<longrightarrow>
      (\<forall>i. sint (backoff_at (config p) i)
              = min (sint (RekeyBackoff (config p)) * 2 ^ i) (sint (maxBackoff_of (config p)))))
   \<and> (sane_backoff (RekeyBackoff (config p)) \<and> sane_backoff (maxBackoff_of (config p))
        \<and> cipher p \<noteq> None \<and> (\<forall>k. entropy e k KeySize = None)
        \<and> (\<forall>k. jitter_draw e k = Some (draw k)) \<longrightarrow>
      ex = Returned \<and> p' = p\<lparr>rekeying := 0\<rparr>
      \<and> w' = w\<lparr>rand_calls := rand_calls w + 2 * nat (MaxRekeyAttempts (config p)),
               trace := trace w @ concat (map (\<lambda>i.
                 [CipherFactoryCalled,
                  Slept (backoff_at (config p) i
                           + BigEndian_Uint64 (draw (rand_calls w + 2 * i + 1))
                               mod backoff_at (config p) i)])
                 [0..<nat (MaxRekeyAttempts (config p))])
               @ [RekeyingStored 0]\<rparr>)"
proof (intro conjI impI allI)
  obtain ex0 p0 w0 where
    l: "rekey_loop e p (maxBackoff_of (config p)) 0 (backoff_at (config p) 0) w = (ex0, p0, w0)"
    by (cases "rekey_loop e p (maxBackoff_of (config p)) 0 (backoff_at (config p) 0) w") auto
  have st: "\<forall>t. backoff_at (config p) (Suc t)
              = next_backoff (backoff_at (config p) t) (maxBackoff_of (config p))"
    by simp
  have n0: "nat (MaxRekeyAttempts (config p)) = nat (MaxRekeyAttempts (config p) - 0)" by simp
  from rekey_loop_run [where B = "backoff_at (config p)" and j = 0, OF st n0 l]
  obtain k rnds rest where
    run: "trace w0 = trace w @ concat (map (\<lambda>t.
            [CipherFactoryCalled,
             Slept (backoff_at (config p) t + rnds t mod backoff_at (config p) t)]) [0..<k])
          @ rest"
      "k \<le> nat (MaxRekeyAttempts (config p))"
      "\<forall>t<k. backoff_at (config p) t \<noteq> 0
          \<and> (\<exists>q bs. jitter_draw e q = Some bs \<and> rnds t = BigEndian_Uint64 bs)"
      "rest = [] \<and> ex0 = Returned \<and> k = nat (MaxRekeyAttempts (config p)) \<and> p0 = p
         \<and> heap w0 = heap w
       \<or> rest = [] \<and> ex0 = Panicked NilInterface \<and> cipher p = None \<and> p0 = p
           \<and> heap w0 = heap w
       \<or> rest = [CipherFactoryCalled] \<and> ex0 = Died \<and> k < nat (MaxRekeyAttempts (config p))
           \<and> p0 = p \<and> heap w0 = heap w
       \<or> rest = [CipherFactoryCalled] \<and> ex0 = Panicked DivideByZero
           \<and> k < nat (MaxRekeyAttempts (config p)) \<and> backoff_at (config p) k = 0 \<and> p0 = p
           \<and> heap w0 = heap w
       \<or> (\<exists>old new. rest = [CipherFactoryCalled, CipherStored new, UsageStored 0,
                               CipherWiped old]
             \<and> ex0 = Returned \<and> k < nat (MaxRekeyAttempts (config p)) \<and> cipher p = Some old
             \<and> p0 = p\<lparr>cipher := Some new, usage := 0\<rparr>
             \<and> heap w0 old = Some zero_Cipher)"
    by auto
  have r: "ex = ex0"
    "ex0 = Died \<longrightarrow> p' = p0 \<and> w' = w0"
    "ex0 \<noteq> Died \<longrightarrow> p' = p0\<lparr>rekeying := 0\<rparr> \<and> w' = w0\<lparr>trace := trace w0 @ [RekeyingStored 0]\<rparr>"
    using assms l by (auto simp: asyncRekey_unfold split: if_splits)
  define rest' where "rest' = (if ex0 = Died then rest else rest @ [RekeyingStored 0])"
  have tr: "trace w' = trace w @ concat (map (\<lambda>i.
            [CipherFactoryCalled,
             Slept (backoff_at (config p) i + rnds i mod backoff_at (config p) i)]) [0..<k])
          @ rest'"
    using run(1) r by (auto simp: rest'_def)
  have tl: "rest' = [RekeyingStored 0] \<and> ex = Returned \<and> k = nat (MaxRekeyAttempts (config p))
              \<and> p' = p\<lparr>rekeying := 0\<rparr> \<and> heap w' = heap w
           \<or> rest' = [RekeyingStored 0] \<and> ex = Panicked NilInterface \<and> cipher p = None
               \<and> p' = p\<lparr>rekeying := 0\<rparr> \<and> heap w' = heap w
           \<or> rest' = [CipherFactoryCalled] \<and> ex = Died
               \<and> k < nat (MaxRekeyAttempts (config p)) \<and> p' = p \<and> heap w' = heap w
           \<or> rest' = [CipherFactoryCalled, RekeyingStored 0] \<and> ex = Panicked DivideByZero
               \<and> k < nat (MaxRekeyAttempts (config p)) \<and> backoff_at (config p) k = 0
               \<and> p' = p\<lparr>rekeying := 0\<rparr> \<and> heap w' = heap w
           \<or> (\<exists>old new. rest' = [CipherFactoryCalled, CipherStored new, UsageStored 0,
                                   CipherWiped old, RekeyingStored 0]
                 \<and> ex = Returned \<and> k < nat (MaxRekeyAttempts (config p))
                 \<and> cipher p = Some old
                 \<and> p' = p\<lparr>cipher := Some new, usage := 0, rekeying := 0\<rparr>
                 \<and> heap w' old = Some zero_Cipher)"
    using run(4) r by (auto simp: rest'_def)
  show "\<exists>k rnds rest.
        trace w' = trace w @ concat (map (\<lambda>i.
            [CipherFactoryCalled,
             Slept (backoff_at (config p) i + rnds i mod backoff_at (config p) i)]) [0..<k])
          @ rest
        \<and> k \<le> nat (MaxRekeyAttempts (config p))
        \<and> (\<forall>i<k. backoff_at (config p) i \<noteq> 0
               \<and> (\<exists>q bs. jitter_draw e q = Some bs \<and> rnds i = BigEndian_Uint64 bs))
        \<and> (rest = [RekeyingStored 0] \<and> ex = Returned \<and> k = nat (MaxRekeyAttempts (config p))
              \<and> p' = p\<lparr>rekeying := 0\<rparr> \<and> heap w' = heap w
           \<or> rest = [RekeyingStored 0] \<and> ex = Panicked NilInterface \<and> cipher p = None
               \<and> p' = p\<lparr>rekeying := 0\<rparr> \<and> heap w' = heap w
           \<or> rest = [CipherFactoryCalled] \<and> ex = Died
               \<and> k < nat (MaxRekeyAttempts (config p)) \<and> p' = p \<and> heap w' = heap w
           \<or> rest = [CipherFactoryCalled, RekeyingStored 0] \<and> ex = Panicked DivideByZero
               \<and> k < nat (MaxRekeyAttempts (config p)) \<and> backoff_at (config p) k = 0
               \<and> p' = p\<lparr>rekeying := 0\<rparr> \<and> heap w' = heap w
           \<or> (\<exists>old new. rest = [CipherFactoryCalled, CipherStored new, UsageStored 0,
                                   CipherWiped old, RekeyingStored 0]
                 \<and> ex = Returned \<and> k < nat (MaxRekeyAttempts (config p))
                 \<and> cipher p = Some old
                 \<and> p' = p\<lparr>cipher := Some new, usage := 0, rekeying := 0\<rparr>
                 \<and> heap w' old = Some zero_Cipher))"
    using tr run(2, 3) tl
    by (intro exI [of _ k] exI [of _ rnds] exI [of _ rest']) blast
next
  show "factory_calls (trace w') \<le> factory_calls (trace w) + nat (MaxRekeyAttempts (config p))"
    using asyncRekey_factory_calls [of e p w] assms by simp
next
  fix i
  assume "sane_backoff (RekeyBackoff (config p)) \<and> sane_backoff (maxBackoff_of (config p))
        \<and> RekeyBackoff (config p) \<le>s maxBackoff_of (config p)"
  then show "sint (backoff_at (config p) i)
              = min (sint (RekeyBackoff (config p)) * 2 ^ i) (sint (maxBackoff_of (config p)))"
    by (simp add: backoff_at_closed)
next
  assume h: "sane_backoff (RekeyBackoff (config p)) \<and> sane_backoff (maxBackoff_of (config p))
        \<and> cipher p \<noteq> None \<and> (\<forall>k. entropy e k KeySize = None)
        \<and> (\<forall>k. jitter_draw e k = Some (draw k))"
  then obtain old where c: "cipher p = Some old" by auto
  from h have kf: "\<forall>k. entropy e k KeySize = None"
    and jd: "\<forall>k. jitter_draw e k = Some (draw k)" by simp_all
  from h have st: "\<forall>t. backoff_at (config p) (Suc t)
              = next_backoff (backoff_at (config p) t) (maxBackoff_of (config p))"
    and nz: "\<forall>t. backoff_at (config p) t \<noteq> 0"
    using backoff_at_steps [of "config p"] by simp_all
  from rekey_loop_all_fail [where B = "backoff_at (config p)" and j = 0 and i = 0
      and m = "maxBackoff_of (config p)" and w = w, OF kf jd c st nz refl]
  have "rekey_loop e p (maxBackoff_of (config p)) 0 (RekeyBackoff (config p)) w =
           (Returned, p,
            w\<lparr>rand_calls := rand_calls w + 2 * nat (MaxRekeyAttempts (config p)),
              trace := trace w @ concat (map (\<lambda>t.
                [CipherFactoryCalled,
                 Slept (backoff_at (config p) t
                          + BigEndian_Uint64 (draw (rand_calls w + 2 * t + 1))
                              mod backoff_at (config p) t)])
                [0..<nat (MaxRekeyAttempts (config p))])\<rparr>)"
    by simp
  then have "asyncRekey e p w =
        (Returned, p\<lparr>rekeying := 0\<rparr>,
         w\<lparr>rand_calls := rand_calls w + 2 * nat (MaxRekeyAttempts (config p)),
           trace := trace w @ concat (map (\<lambda>i.
               [CipherFactoryCalled,
                Slept (backoff_at (config p) i
                         + BigEndian_Uint64 (draw (rand_calls w + 2 * i + 1))
                             mod backoff_at (config p) i)])
               [0..<nat (MaxRekeyAttempts (config p))])
             @ [RekeyingStored 0]\<rparr>)"
    by (simp add: asyncRekey_unfold)
  then have res: "ex = Returned" "p' = p\<lparr>rekeying := 0\<rparr>"
    "w' = w\<lparr>rand_calls := rand_calls w + 2 * nat (MaxRekeyAttempts (config p)),
           trace := trace w @ concat (map (\<lambda>i.
               [CipherFactoryCalled,
                Slept (backoff_at (config p) i
                         + BigEndian_Uint64 (draw (rand_calls w + 2 * i + 1))
                             mod backoff_at (config p) i)])
               [0..<nat (MaxRekeyAttempts (config p))])
             @ [RekeyingStored 0]\<rparr>"
    using assms by simp_all
  show "ex = Returned" by (rule res(1))
  show "p' = p\<lparr>rekeying := 0\<rparr>" by (rule res(2))
  show "w' = w\<lparr>rand_calls := rand_calls w + 2 * nat (MaxRekeyAttempts (config p)),
               trace := trace w @ concat (map (\<lambda>i.
                 [CipherFactoryCalled,
                  Slept (backoff_at (config p) i
                           + BigEndian_Uint64 (draw (rand_calls w + 2 * i + 1))
                               mod backoff_at (config p) i)])
                 [0..<nat (MaxRekeyAttempts (config p))])
               @ [RekeyingStored 0]\<rparr>"
    by (rule res(3))
qed

theorem rekey_backoff_schedule_witness:
  "sane_backoff (RekeyBackoff (config PR)) \<and> sane_backoff (maxBackoff_of (config PR))
   \<and> RekeyBackoff (config PR) \<le>s maxBackoff_of (config PR)
   \<and> cipher PR \<noteq> None
   \<and> entropy E_jit 0 KeySize = None
   \<and> jitter_draw E_jit 3 = Some (replicate 8 1)
   \<and> fst (asyncRekey E_jit PR W1) = Returned
   \<and> fst (snd (asyncRekey E_jit PR W1)) = PR\<lparr>rekeying := 0\<rparr>
   \<and> heap (snd (snd (asyncRekey E_jit PR W1))) = heap W1
   \<and> take 4 (trace (snd (snd (asyncRekey E_jit PR W1))))
       = [CipherFactoryCalled, Slept 138076673, CipherFactoryCalled, Slept 238076673]
   \<and> length (trace (snd (snd (asyncRekey E_jit PR W1)))) = 11
   \<and> factory_calls (trace (snd (snd (asyncRekey E_jit PR W1)))) \<le> 5
   \<and> sint (backoff_at (config PR) 5) = 2000000000"
proof -
  have cfg: "RekeyBackoff (config PR) = 100000000" "maxBackoff_of (config PR) = 2000000000"
    "MaxRekeyAttempts (config PR) = 5"
    by (simp_all add: PR_def P1_def DefaultConfig_def rekeyBackoff_def maxRekeyBackoff_def
        maxBackoff_of_def maxRekeyAttempts_def Millisecond_def Second_def)
  have a: "sane_backoff (RekeyBackoff (config PR))" "sane_backoff (maxBackoff_of (config PR))"
    by (simp_all add: cfg sane_backoff_def)
  have b: "RekeyBackoff (config PR) \<le>s maxBackoff_of (config PR)"
    by (simp add: cfg word_sle_eq)
  have c: "cipher PR \<noteq> None" by (simp add: PR_def P1_def)
  have d: "\<forall>k. entropy E_jit k KeySize = None" by (simp add: E_jit_def KeySize_def)
  have jd: "\<forall>k. jitter_draw E_jit k = Some (replicate 8 1)"
    by (simp add: jitter_draw_def E_jit_def)
  have rnd: "BigEndian_Uint64 (replicate 8 1) = 72340172838076673"
    by (simp add: BigEndian_Uint64_def eval_nat_numeral)
  obtain ex p' w' where h: "asyncRekey E_jit PR W1 = (ex, p', w')"
    by (cases "asyncRekey E_jit PR W1") auto
  note sched = rekey_backoff_schedule [OF h, where draw = "\<lambda>k. replicate 8 1"]
  from sched a c d jd
  have sch: "ex = Returned" "p' = PR\<lparr>rekeying := 0\<rparr>"
    "w' = W1\<lparr>rand_calls := rand_calls W1 + 2 * nat (MaxRekeyAttempts (config PR)),
           trace := trace W1 @ concat (map (\<lambda>i.
               [CipherFactoryCalled,
                Slept (backoff_at (config PR) i
                         + BigEndian_Uint64 (replicate 8 1) mod backoff_at (config PR) i)])
               [0..<nat (MaxRekeyAttempts (config PR))])
             @ [RekeyingStored 0]\<rparr>"
    by blast+
  from sched a b
  have cl: "\<And>i. sint (backoff_at (config PR) i)
              = min (sint (RekeyBackoff (config PR)) * 2 ^ i) (sint (maxBackoff_of (config PR)))"
    by blast
  from sched
  have fc0: "factory_calls (trace w')
               \<le> factory_calls (trace W1) + nat (MaxRekeyAttempts (config PR))"
    by blast
  have t: "trace W1 = []" by (simp add: W1_def)
  have five: "[0..<5] = [0, Suc 0, 2, 3, 4]" by (simp add: upt_rec)
  have tr: "take 4 (trace w')
       = [CipherFactoryCalled, Slept 138076673, CipherFactoryCalled, Slept 238076673]"
    by (simp add: sch(3) cfg t five rnd next_backoff_def word_sless_alt)
  have ln: "length (trace w') = 11"
    by (simp add: sch(3) cfg(3) t five)
  have fc: "factory_calls (trace w') \<le> 5"
    using fc0 by (simp add: cfg(3) t factory_calls_def)
  have s5: "sint (backoff_at (config PR) 5) = 2000000000"
    by (simp add: cl cfg)
  have hp: "heap w' = heap W1" by (simp add: sch(3))
  show ?thesis
    using a b c d jd tr ln fc s5 hp sch(1, 2) by (simp add: h)
qed

text \<open>
  C9, as the claim states it, fails: with \<open>RekeyBackoff = 2^62\<close> ns, a positive duration,
  and the default maximum, the doubling wraps to \<open>- 2^63\<close> and then to 0, and the third
  failed attempt divides by zero.
\<close>

theorem rekey_positive_backoff_counterexample:
  "0 <s RekeyBackoff (config P62)
   \<and> sint (RekeyBackoff (config P62)) = 2 ^ 62
   \<and> backoff_at (config P62) 2 = 0
   \<and> fst (asyncRekey E_jit P62 W1) = Panicked DivideByZero
   \<and> factory_calls (trace (snd (snd (asyncRekey E_jit P62 W1)))) = 3"
proof -
  have rnd: "BigEndian_Uint64 (replicate 8 1) = 72340172838076673"
    by (simp add: BigEndian_Uint64_def eval_nat_numeral)
  have cfg: "RekeyBackoff (config P62) = 4611686018427387904"
    "maxBackoff_of (config P62) = 2000000000" "MaxRekeyAttempts (config P62) = 5"
    "cipher P62 = Some 0"
    by (simp_all add: P62_def P1_def DefaultConfig_def maxRekeyBackoff_def
        maxBackoff_of_def maxRekeyAttempts_def Second_def)
  have a: "0 <s RekeyBackoff (config P62)" "sint (RekeyBackoff (config P62)) = 2 ^ 62"
    by (simp_all add: cfg word_sless_alt)
  have "backoff_at (config P62) 2
          = next_backoff (next_backoff (RekeyBackoff (config P62)) (maxBackoff_of (config P62)))
              (maxBackoff_of (config P62))"
    by (simp add: numeral_2_eq_2)
  then have b: "backoff_at (config P62) 2 = 0"
    by (simp add: cfg next_backoff_def word_sless_alt)
  have c: "asyncRekey E_jit P62 W1 =
      (Panicked DivideByZero, P62\<lparr>rekeying := 0\<rparr>,
       W1\<lparr>rand_calls := 8,
          trace := [CipherFactoryCalled, Slept 4684026191265464577,
                    CipherFactoryCalled, Slept 9295712209692852481,
                    CipherFactoryCalled, RekeyingStored 0]\<rparr>)"
    by (simp add: asyncRekey_unfold cfg rekey_loop.simps newCipher_def backoff_sleep_def
        rand_Read_def ReadFull_def log_event_def E_jit_def W1_def Let_def KeySize_def rnd
        next_backoff_def word_sless_alt)
  show ?thesis using a b by (simp add: c factory_calls_def)
qed

text \<open>
  C9, amended: the worker replaces a zero \<open>MaxRekeyBackoff\<close> by the default and never
  replaces \<open>RekeyBackoff\<close>. With \<open>RekeyBackoff = 0\<close>, a first attempt that fails and an 8-byte
  draw that succeeds end the worker in a division by zero, whatever \<open>MaxRekeyBackoff\<close> is,
  and the deferred store clears \<open>rekeying\<close>. The worker divides by zero only at a failed
  attempt whose backoff, after the doublings, is 0; with \<open>0 < RekeyBackoff < 2^62\<close> ns and a
  maximum (\<open>MaxRekeyBackoff\<close>, or 2 s when that is 0) that is positive and below \<open>2^62\<close> ns
  it never does.
\<close>

theorem rekey_zero_backoff:
  "fst (asyncRekey e p w)
     = fst (rekey_loop e p (if MaxRekeyBackoff (config p) = 0 then maxRekeyBackoff
                            else MaxRekeyBackoff (config p)) 0 (RekeyBackoff (config p)) w)
   \<and> (RekeyBackoff (config p) = 0 \<and> 0 < MaxRekeyAttempts (config p) \<and> cipher p \<noteq> None
      \<and> newCipher e w = (Inl err, w1) \<and> ReadFull e 8 w1 = (Some bs, w2) \<longrightarrow>
    asyncRekey e p w
      = (Panicked DivideByZero, p\<lparr>rekeying := 0\<rparr>, log_event (RekeyingStored 0) w2))
   \<and> (fst (asyncRekey e p w) = Panicked DivideByZero \<longrightarrow>
        (\<exists>k. int k < MaxRekeyAttempts (config p) \<and> backoff_at (config p) k = 0))
   \<and> (sane_backoff (RekeyBackoff (config p)) \<and> sane_backoff (maxBackoff_of (config p)) \<longrightarrow>
      fst (asyncRekey e p w) \<noteq> Panicked DivideByZero)"
proof -
  have dz: "\<exists>k. int k < MaxRekeyAttempts (config p) \<and> backoff_at (config p) k = 0"
    if f: "fst (asyncRekey e p w) = Panicked DivideByZero"
  proof -
    obtain ex0 p0 w0 where
      l: "rekey_loop e p (maxBackoff_of (config p)) 0 (backoff_at (config p) 0) w = (ex0, p0, w0)"
      by (cases "rekey_loop e p (maxBackoff_of (config p)) 0 (backoff_at (config p) 0) w") auto
    have ex0: "ex0 = Panicked DivideByZero" using f l by (simp add: asyncRekey_fst)
    have st: "\<forall>t. backoff_at (config p) (Suc t)
                = next_backoff (backoff_at (config p) t) (maxBackoff_of (config p))"
      by simp
    have n0: "nat (MaxRekeyAttempts (config p)) = nat (MaxRekeyAttempts (config p) - 0)" by simp
    from rekey_loop_run [where B = "backoff_at (config p)" and j = 0, OF st n0 l] ex0
    obtain k where "k < nat (MaxRekeyAttempts (config p))" "backoff_at (config p) k = 0"
      by auto
    then show ?thesis by (intro exI [of _ k]) simp
  qed
  have a: "fst (asyncRekey e p w)
     = fst (rekey_loop e p (if MaxRekeyBackoff (config p) = 0 then maxRekeyBackoff
                            else MaxRekeyBackoff (config p)) 0 (RekeyBackoff (config p)) w)"
    using asyncRekey_fst [of e p w] by (simp add: maxBackoff_of_def)
  have b: "asyncRekey e p w
      = (Panicked DivideByZero, p\<lparr>rekeying := 0\<rparr>, log_event (RekeyingStored 0) w2)"
    if h: "RekeyBackoff (config p) = 0 \<and> 0 < MaxRekeyAttempts (config p) \<and> cipher p \<noteq> None
      \<and> newCipher e w = (Inl err, w1) \<and> ReadFull e 8 w1 = (Some bs, w2)"
  proof -
    from h obtain old where c: "cipher p = Some old" by auto
    have bs: "backoff_sleep e 0 w1 = (Panicked DivideByZero, w2)"
      using h by (simp add: backoff_sleep_def rand_Read_def Let_def)
    from h have lt: "0 < MaxRekeyAttempts (config p)" and nc: "newCipher e w = (Inl err, w1)"
      by simp_all
    from rekey_loop_stop [OF lt c nc bs, of "maxBackoff_of (config p)"] h
    show ?thesis by (simp add: asyncRekey_unfold log_event_def)
  qed
  have c: "fst (asyncRekey e p w) \<noteq> Panicked DivideByZero"
    if h: "sane_backoff (RekeyBackoff (config p)) \<and> sane_backoff (maxBackoff_of (config p))"
  proof
    assume "fst (asyncRekey e p w) = Panicked DivideByZero"
    from dz [OF this] obtain k where "backoff_at (config p) k = 0" by blast
    then show False
      using backoff_at_sane [of "config p" k] h by (auto simp: sane_backoff_def)
  qed
  show ?thesis using a b c dz by blast
qed

theorem rekey_zero_backoff_witness:
  "RekeyBackoff (config P0) = 0 \<and> MaxRekeyBackoff (config P0) = 0
   \<and> 0 < MaxRekeyAttempts (config P0) \<and> cipher P0 \<noteq> None
   \<and> fst (newCipher E_jit W1) = Inl KeyReadFailed
   \<and> fst (asyncRekey E_jit P0 W1) = Panicked DivideByZero
   \<and> rekeying (fst (snd (asyncRekey E_jit P0 W1))) = 0
   \<and> trace (snd (snd (asyncRekey E_jit P0 W1))) = [CipherFactoryCalled, RekeyingStored 0]
   \<and> (\<exists>k. int k < MaxRekeyAttempts (config P0) \<and> backoff_at (config P0) k = 0)
   \<and> sane_backoff (RekeyBackoff (config PR)) \<and> sane_backoff (maxBackoff_of (config PR))
   \<and> fst (asyncRekey E_jit PR W1) \<noteq> Panicked DivideByZero"
proof -
  have cfg: "RekeyBackoff (config P0) = 0" "MaxRekeyBackoff (config P0) = 0"
    "0 < MaxRekeyAttempts (config P0)" "cipher P0 \<noteq> None"
    by (simp_all add: P0_def P1_def DefaultConfig_def maxRekeyAttempts_def)
  define w1 where
    "w1 = W1\<lparr>rand_calls := Suc (rand_calls W1), trace := trace W1 @ [CipherFactoryCalled]\<rparr>"
  have kj: "\<forall>k. entropy E_jit k KeySize = None" by (simp add: E_jit_def KeySize_def)
  have nc: "newCipher E_jit W1 = (Inl KeyReadFailed, w1)"
    using kj by (simp add: newCipher_key_fails w1_def)
  have rf: "ReadFull E_jit 8 w1 = (Some (replicate 8 1), w1\<lparr>rand_calls := Suc (rand_calls w1)\<rparr>)"
    by (simp add: ReadFull_def E_jit_def)
  have s: "sane_backoff (RekeyBackoff (config PR))" "sane_backoff (maxBackoff_of (config PR))"
    by (simp_all add: PR_def P1_def DefaultConfig_def rekeyBackoff_def maxRekeyBackoff_def
        maxBackoff_of_def Millisecond_def Second_def sane_backoff_def)
  from rekey_zero_backoff [where p = P0 and e = E_jit and w = W1 and err = KeyReadFailed
      and ?w1.0 = w1 and bs = "replicate 8 1"
      and ?w2.0 = "w1\<lparr>rand_calls := Suc (rand_calls w1)\<rparr>"] cfg nc rf
  have a: "asyncRekey E_jit P0 W1
      = (Panicked DivideByZero, P0\<lparr>rekeying := 0\<rparr>,
         log_event (RekeyingStored 0) (w1\<lparr>rand_calls := Suc (rand_calls w1)\<rparr>))"
    by simp
  then have f: "fst (asyncRekey E_jit P0 W1) = Panicked DivideByZero" by simp
  from rekey_zero_backoff [where p = P0 and e = E_jit and w = W1] f
  have b: "\<exists>k. int k < MaxRekeyAttempts (config P0) \<and> backoff_at (config P0) k = 0"
    by blast
  from rekey_zero_backoff [where p = PR and e = E_jit and w = W1] s
  have c: "fst (asyncRekey E_jit PR W1) \<noteq> Panicked DivideByZero"
    by blast
  have t: "trace (snd (snd (asyncRekey E_jit P0 W1))) = [CipherFactoryCalled, RekeyingStored 0]"
    unfolding a by (simp add: w1_def log_event_def W1_def)
  show ?thesis
    using cfg nc b c s t by (simp add: a)
qed

section \<open>What the constructors establish, and the frame of the configuration\<close>

lemma newPRNG_Some:
  assumes "newPRNG e cfg w = (Inr p, w1)"
  shows "prng_ok p w1 \<and> config p = cfg"
proof -
  from assms obtain r where "newCipher e w = (Inr r, w1)" "cipher p = Some r" "config p = cfg"
    by (auto simp: newPRNG_def split: prod.splits sum.splits)
  then show ?thesis
    using newCipher_Inr [of e w r w1] by (simp add: prng_ok_def)
qed

lemma newPRNG_heap_mono:
  assumes "newPRNG e cfg w = (x, w1)" "heap w q \<noteq> None"
  shows "heap w1 q \<noteq> None"
proof -
  have "w1 = snd (newCipher e w)"
    using assms(1) by (auto simp: newPRNG_def split: prod.splits sum.splits)
  then show ?thesis using assms(2) by (simp add: newCipher_heap_mono)
qed

lemma init_retry_result:
  assumes "init_retry e cfg r w = (x, w')"
  shows "(\<forall>q. heap w q \<noteq> None \<longrightarrow> heap w' q \<noteq> None)
         \<and> (\<forall>p. x = Some p \<longrightarrow> prng_ok p w' \<and> config p = cfg)"
  using assms
proof (induction e cfg r w rule: init_retry.induct)
  case (1 e cfg r w)
  show ?case
  proof (cases "r < MaxInitRetries cfg")
    case False
    then show ?thesis using "1.prems" by (simp add: init_retry.simps [of e cfg r w])
  next
    case True
    obtain y w1 where n: "newPRNG e cfg w = (y, w1)" by (cases "newPRNG e cfg w") auto
    show ?thesis
    proof (cases y)
      case (Inr p)
      then have "x = Some p" "w' = w1"
        using True n "1.prems" by (simp_all add: init_retry.simps [of e cfg r w])
      then show ?thesis
        using newPRNG_Some [OF n [unfolded Inr]] newPRNG_heap_mono [OF n] by simp
    next
      case (Inl err)
      then have rec: "init_retry e cfg (r + 1) w1 = (x, w')"
        using True n "1.prems" by (simp add: init_retry.simps [of e cfg r w])
      from "1.IH" [OF True n [symmetric] Inl rec]
      show ?thesis using newPRNG_heap_mono [OF n] by simp
    qed
  qed
qed

lemma NewReader_shards_ok:
  assumes "NewReader_shards e cfg k w = Inr (Inr ps, w')"
  shows "length ps = k
         \<and> (\<forall>pl \<in> set ps. \<exists>p. idle pl = [p] \<and> prng_ok p w' \<and> config p = cfg)
         \<and> (\<forall>q. heap w q \<noteq> None \<longrightarrow> heap w' q \<noteq> None)"
  using assms
proof (induction k arbitrary: w ps)
  case 0
  then show ?case by simp
next
  case (Suc k)
  obtain x w1 where ir: "init_retry e cfg 0 w = (x, w1)" by (cases "init_retry e cfg 0 w") auto
  from Suc.prems ir obtain p rest where
    x: "x = Some p" and
    rec: "NewReader_shards e cfg k w1 = Inr (Inr rest, w')" and
    ps: "ps = pool_Put p \<lparr>idle = [], New = NewReader_New cfg\<rparr> # rest"
    by (auto simp: pool_Get_def call_New_def Let_def split: option.splits sum.splits prod.splits)
  note r1 = init_retry_result [OF ir]
  note r2 = Suc.IH [OF rec]
  have "prng_ok p w'"
    using r1 r2 x by (blast intro: prng_ok_mono)
  then show ?case
    using r1 r2 x ps by (auto simp: pool_Put_def)
qed

lemma NewReader_reader_ok:
  assumes "0 < gomaxprocs e" "NewReader e opts w = Inr (Inr r, w')"
  shows "reader_ok r w'"
proof -
  define cfg where "cfg = compose_Config (gomaxprocs e) opts"
  have sh: "0 < Shards cfg" using assms(1) by (simp add: cfg_def compose_Config_Shards)
  from assms(2) sh obtain ps where
    s: "NewReader_shards e cfg (nat (Shards cfg)) w = Inr (Inr ps, w')" and r: "pools r = ps"
    by (auto simp: NewReader_cfg cfg_def [symmetric] Let_def split: sum.splits prod.splits)
  from NewReader_shards_ok [OF s] sh have "ps \<noteq> []"
    "\<forall>pl \<in> set ps. \<exists>p. idle pl = [p] \<and> prng_ok p w'"
    by auto
  then show ?thesis
    using r by (fastforce simp: reader_ok_def)
qed

lemma init_shards_ok:
  assumes "init_shards e cfg k w = Inr (ps, w')"
  shows "length ps = k
         \<and> (\<forall>pl \<in> set ps. \<exists>p. idle pl = [p] \<and> prng_ok p w' \<and> config p = cfg)
         \<and> (\<forall>q. heap w q \<noteq> None \<longrightarrow> heap w' q \<noteq> None)"
  using assms
proof (induction k arbitrary: w ps)
  case 0
  then show ?case by simp
next
  case (Suc k)
  obtain x w1 where ir: "init_retry e cfg 0 w = (x, w1)" by (cases "init_retry e cfg 0 w") auto
  from Suc.prems ir obtain p rest where
    x: "x = Some p" and
    rec: "init_shards e cfg k w1 = Inr (rest, w')" and
    ps: "ps = pool_Put p \<lparr>idle = [], New = init_New cfg\<rparr> # rest"
    by (auto simp: pool_Get_def call_New_def Let_def split: option.splits sum.splits prod.splits)
  note r1 = init_retry_result [OF ir]
  note r2 = Suc.IH [OF rec]
  have "prng_ok p w'"
    using r1 r2 x by (blast intro: prng_ok_mono)
  then show ?case
    using r1 r2 x ps by (auto simp: pool_Put_def)
qed

lemma init_reader_ok:
  assumes "0 < gomaxprocs e" "init e w = Inr (r, w')"
  shows "reader_ok r w'"
proof -
  have sh: "0 < Shards (DefaultConfig (gomaxprocs e))"
    using assms(1) by (simp add: DefaultConfig_def)
  from assms(2) sh obtain ps where
    s: "init_shards e (DefaultConfig (gomaxprocs e)) (nat (Shards (DefaultConfig (gomaxprocs e)))) w
          = Inr (ps, w')" and r: "pools r = ps"
    by (auto simp: init_def Let_def split: sum.splits prod.splits)
  from init_shards_ok [OF s] sh have "ps \<noteq> []"
    "\<forall>pl \<in> set ps. \<exists>p. idle pl = [p] \<and> prng_ok p w'"
    by auto
  then show ?thesis
    using r by (fastforce simp: reader_ok_def)
qed

lemma prng_Read_config:
  assumes "prng_Read e p b w = Inr (res, out, p', w')"
  shows "config p' = config p"
proof (cases "b = []")
  case True
  then show ?thesis using assms by (simp add: prng_Read_def)
next
  case False
  from prng_Read_unfold [OF False assms] obtain r c p1 c1 where
    g: "generate e p c b = Inr (out, p1, c1)" and
    t: "track_usage p1 (length b) (w\<lparr>heap := (heap w)(r \<mapsto> c1)\<rparr>) = (p', w')"
    by blast
  show ?thesis
    using generate_frame [OF g] track_usage_frame [OF t] by simp
qed

lemma reader_Read_rconfig:
  "reader_Read e r b w = Inr (res, out, r', w') \<Longrightarrow> rconfig r' = rconfig r"
  by (auto simp: reader_Read_def Let_def split: if_splits sum.splits prod.splits option.splits)

lemma asyncRekey_config: "config (fst (snd (asyncRekey e p w))) = config p"
proof -
  obtain ex0 p0 w0 where
    l: "rekey_loop e p (maxBackoff_of (config p)) 0 (RekeyBackoff (config p)) w = (ex0, p0, w0)"
    by (cases "rekey_loop e p (maxBackoff_of (config p)) 0 (RekeyBackoff (config p)) w") auto
  from rekey_loop_shape [OF refl l] have "config p0 = config p" by auto
  then show ?thesis using l by (simp add: asyncRekey_unfold)
qed

lemma NewReader_Config_copy:
  "NewReader e opts w = Inr (Inr r, w') \<Longrightarrow>
     reader_Config r = Inr (compose_Config (gomaxprocs e) opts)"
  by (simp add: reader_Config_def NewReader_rconfig)


end
